theory Spec2Isabelle
  imports Complex_Main
begin

section \<open>JavaScript values\<close>

text \<open>
  A JavaScript string is a sequence of UTF-16 code units and \<open>s.length\<close> counts them,
  so a string is a list of code units. The ellipsis U+2026 and the block characters
  U+2588 and U+2591 are one code unit each. \<open>js\<close> turns an ASCII literal into its code
  units.
\<close>

type_synonym jsstring = "nat list"

definition js :: "string \<Rightarrow> jsstring" where
  "js s = map of_char s"

definition ellipsis :: nat where
  "ellipsis = 0x2026"

definition full_block :: nat where
  "full_block = 0x2588"

definition light_shade :: nat where
  "light_shade = 0x2591"

text \<open>What a function throws: an \<open>Error\<close> with its message, or a built-in exception.\<close>

datatype js_error = Error jsstring | RangeError | SyntaxError

text \<open>Numbers are modelled as reals (no NaN, no infinities); \<open>Math.round\<close> rounds half up.\<close>

definition js_round :: "real \<Rightarrow> int" where
  "js_round x = \<lfloor>x + 1 / 2\<rfloor>"

text \<open>\<open>s.repeat(n)\<close> throws a RangeError on a negative count.\<close>

definition js_repeat :: "jsstring \<Rightarrow> int \<Rightarrow> js_error + jsstring" where
  "js_repeat s n = (if n < 0 then Inl RangeError else Inr (concat (replicate (nat n) s)))"

text \<open>\<open>parts.join(sep)\<close>.\<close>

fun join :: "jsstring \<Rightarrow> jsstring list \<Rightarrow> jsstring" where
  "join sep [] = []"
| "join sep [x] = x"
| "join sep (x # y # ys) = x @ sep @ join sep (y # ys)"

text \<open>Truthiness of an optional string: \<open>undefined\<close> and the empty string are falsy.\<close>

fun truthy :: "jsstring option \<Rightarrow> bool" where
  "truthy None = False"
| "truthy (Some s) = (s \<noteq> [])"

text \<open>\<open>a || b\<close> on optional strings.\<close>

definition js_or :: "jsstring option \<Rightarrow> jsstring option \<Rightarrow> jsstring option" where
  "js_or a b = (if truthy a then a else b)"

text \<open>\<open>a || "literal"\<close>: the chain ends in a string.\<close>

definition or_else :: "jsstring option \<Rightarrow> jsstring \<Rightarrow> jsstring" where
  "or_else a d = (if truthy a then the a else d)"

section \<open>Quota rows and cells\<close>

text \<open>The type \<open>QuotaRow\<close>; its field \<open>value\<close> is \<open>cell_value\<close> here.\<close>

record QuotaRow =
  provider :: jsstring
  account :: jsstring
  plan :: jsstring
  metric :: jsstring
  cell_value :: jsstring
  reset :: jsstring
  progressRemaining :: "real option"

text \<open>
  \<open>truncateCell\<close>: first every run of CR, LF and TAB becomes one space
  (\<open>/[\r\n\t]+/g\<close>), then every remaining control character becomes a space
  (\<open>/[\u0000-\u001f\u007f]/g\<close>); the result is cut to \<open>maxWidth\<close> code units with a
  trailing ellipsis.
\<close>

definition is_crlftab :: "nat \<Rightarrow> bool" where
  "is_crlftab c = (c = 13 \<or> c = 10 \<or> c = 9)"

definition is_control :: "nat \<Rightarrow> bool" where
  "is_control c = (c \<le> 31 \<or> c = 127)"

fun collapse_runs :: "jsstring \<Rightarrow> jsstring" where
  "collapse_runs [] = []"
| "collapse_runs [c] = (if is_crlftab c then [32] else [c])"
| "collapse_runs (c # d # cs) =
     (if is_crlftab c
      then (if is_crlftab d then collapse_runs (d # cs) else 32 # collapse_runs (d # cs))
      else c # collapse_runs (d # cs))"

definition blank_controls :: "jsstring \<Rightarrow> jsstring" where
  "blank_controls s = map (\<lambda>c. if is_control c then 32 else c) s"

definition truncateCell :: "jsstring \<Rightarrow> int \<Rightarrow> jsstring" where
  "truncateCell v maxWidth =
     (let normalized = blank_controls (collapse_runs v)
      in if maxWidth \<le> 0 then []
         else if int (length normalized) \<le> maxWidth then normalized
         else if maxWidth \<le> 1 then [ellipsis]
         else take (nat (maxWidth - 1)) normalized @ [ellipsis])"

text \<open>\<open>renderProgressBar(fraction, width = 8)\<close> and \<open>barValue\<close>.\<close>

definition renderProgressBar :: "real \<Rightarrow> int \<Rightarrow> js_error + jsstring" where
  "renderProgressBar fraction width =
     (let clamped = max 0 (min 1 fraction);
          filled = js_round (clamped * real_of_int width)
      in case js_repeat [full_block] filled of
           Inl e \<Rightarrow> Inl e
         | Inr a \<Rightarrow>
             (case js_repeat [light_shade] (width - filled) of
                Inl e \<Rightarrow> Inl e
              | Inr b \<Rightarrow> Inr (a @ b)))"

definition barValue :: "QuotaRow \<Rightarrow> js_error + jsstring" where
  "barValue row =
     (case progressRemaining row of
        None \<Rightarrow> Inr (js ''-'')
      | Some fraction \<Rightarrow> renderProgressBar fraction 8)"

section \<open>The table layout\<close>

text \<open>
  The terminal primitives come from the TUI library: the visible width of a string and
  the truncation of a string to a visible width. The theme colours and emboldens text.
  They are parameters of the layout.
\<close>

record tui =
  visibleWidth :: "jsstring \<Rightarrow> nat"
  truncateToWidth :: "jsstring \<Rightarrow> int \<Rightarrow> jsstring"

record theme =
  fg :: "jsstring \<Rightarrow> jsstring \<Rightarrow> jsstring"
  bold :: "jsstring \<Rightarrow> jsstring"

text \<open>
  What the layout expects of the primitives: truncation to a non-negative width yields
  a string of at most that visible width, printable ASCII text is as wide as it is long,
  and styling adds no visible width.
\<close>

definition tui_ok :: "tui \<Rightarrow> bool" where
  "tui_ok t \<longleftrightarrow>
     (\<forall>s w. 0 \<le> w \<longrightarrow> int (visibleWidth t (truncateToWidth t s w)) \<le> w) \<and>
     (\<forall>s. (\<forall>c \<in> set s. 32 \<le> c \<and> c \<le> 126) \<longrightarrow> visibleWidth t s = length s)"

definition theme_ok :: "tui \<Rightarrow> theme \<Rightarrow> bool" where
  "theme_ok t th \<longleftrightarrow>
     (\<forall>c s. visibleWidth t (fg th c s) = visibleWidth t s) \<and>
     (\<forall>s. visibleWidth t (bold th s) = visibleWidth t s)"

text \<open>A plain terminal: one column per code unit, truncation keeps a prefix, no styling.\<close>

definition plain_tui :: tui where
  "plain_tui = \<lparr>visibleWidth = length,
     truncateToWidth = (\<lambda>s w. if int (length s) \<le> w then s else take (nat w) s)\<rparr>"

definition plain_theme :: theme where
  "plain_theme = \<lparr>fg = (\<lambda>c s. s), bold = (\<lambda>s. s)\<rparr>"

definition headers :: "jsstring list" where
  "headers = map js [''Provider'', ''Account'', ''Plan'', ''Metric'', ''Value'', ''Bar'',
     ''Reset/Note'']"

definition maxColumnWidths :: "nat list" where
  "maxColumnWidths = [14, 18, 12, 14, 14, 8, 14]"

definition minColumnWidths :: "nat list" where
  "minColumnWidths = [8, 10, 8, 8, 8, 8, 8]"

definition shrinkOrder :: "nat list" where
  "shrinkOrder = [1, 4, 3, 6, 0, 2]"

text \<open>The seven cells of a row; \<open>rows.map\<close> throws as soon as one \<open>barValue\<close> throws.\<close>

definition row_cells :: "QuotaRow \<Rightarrow> js_error + jsstring list" where
  "row_cells r =
     (case barValue r of
        Inl e \<Rightarrow> Inl e
      | Inr bar \<Rightarrow> Inr [provider r, account r, plan r, metric r, cell_value r, bar, reset r])"

fun all_cells :: "QuotaRow list \<Rightarrow> js_error + jsstring list list" where
  "all_cells [] = Inr []"
| "all_cells (r # rs) =
     (case row_cells r of
        Inl e \<Rightarrow> Inl e
      | Inr cs \<Rightarrow> (case all_cells rs of Inl e \<Rightarrow> Inl e | Inr css \<Rightarrow> Inr (cs # css)))"

text \<open>
  \<open>widths\<close>: per column, the widest of the header and the cells
  (\<open>Math.max(a, ...list)\<close> is a fold), capped at the column's maximum.
\<close>

definition naturalWidths :: "tui \<Rightarrow> jsstring list list \<Rightarrow> nat list" where
  "naturalWidths t cells =
     map (\<lambda>index.
            let contentWidth =
                  fold max (map (\<lambda>row. visibleWidth t (row ! index)) cells)
                    (visibleWidth t (headers ! index))
            in min contentWidth (maxColumnWidths ! index))
         [0..<length headers]"

definition totalWidth :: "nat list \<Rightarrow> nat" where
  "totalWidth widths = fold (\<lambda>w sum. sum + w) widths 0 + length widths * 3 + 1"

text \<open>
  One run of the \<open>for (const idx of shrinkOrder)\<close> loop, on the state
  \<open>(widths, reduced)\<close>; the \<open>break\<close> leaves the rest of the order untouched.
\<close>

fun shrinkPass :: "int \<Rightarrow> nat list \<Rightarrow> nat list \<times> bool \<Rightarrow> nat list \<times> bool" where
  "shrinkPass maxWidth [] (widths, reduced) = (widths, reduced)"
| "shrinkPass maxWidth (idx # rest) (widths, reduced) =
     (if widths ! idx > minColumnWidths ! idx
      then (let widths' = widths[idx := widths ! idx - 1]
            in if int (totalWidth widths') \<le> maxWidth then (widths', True)
               else shrinkPass maxWidth rest (widths', True))
      else shrinkPass maxWidth rest (widths, reduced))"

text \<open>The \<open>while (totalWidth() > maxWidth)\<close> loop; \<open>None\<close> is a loop that never ends.\<close>

partial_function (option) shrinkLoop :: "int \<Rightarrow> nat list \<Rightarrow> nat list option" where
  "shrinkLoop maxWidth widths =
     (if int (totalWidth widths) > maxWidth
      then (let r = shrinkPass maxWidth shrinkOrder (widths, False)
            in if \<not> snd r then Some (fst r) else shrinkLoop maxWidth (fst r))
      else Some widths)"

text \<open>The guard \<open>if (maxWidth && totalWidth() > maxWidth)\<close>: 0 and \<open>undefined\<close> are falsy.\<close>

definition shrinkWidths :: "int option \<Rightarrow> nat list \<Rightarrow> nat list option" where
  "shrinkWidths maxWidth widths =
     (case maxWidth of
        None \<Rightarrow> Some widths
      | Some w \<Rightarrow>
          if w \<noteq> 0 \<and> int (totalWidth widths) > w then shrinkLoop w widths else Some widths)"

text \<open>\<open>maxWidth ? truncateToWidth(line, maxWidth) : line\<close>.\<close>

definition clip :: "tui \<Rightarrow> int option \<Rightarrow> jsstring \<Rightarrow> jsstring" where
  "clip t maxWidth line =
     (case maxWidth of
        None \<Rightarrow> line
      | Some w \<Rightarrow> if w \<noteq> 0 then truncateToWidth t line w else line)"

definition separator :: "nat list \<Rightarrow> jsstring" where
  "separator widths =
     js ''+'' @ join (js ''+'') (map (\<lambda>w. replicate (w + 2) (of_char CHR ''-'')) widths)
       @ js ''+''"

text \<open>\<open>padVisible\<close>: \<open>Math.max(0, width - vis)\<close> is the truncated difference.\<close>

definition padVisible :: "tui \<Rightarrow> jsstring \<Rightarrow> nat \<Rightarrow> jsstring" where
  "padVisible t v width = (let vis = visibleWidth t v in v @ replicate (width - vis) 32)"

definition renderRow :: "tui \<Rightarrow> int option \<Rightarrow> nat list \<Rightarrow> jsstring list \<Rightarrow> jsstring" where
  "renderRow t maxWidth widths cols =
     (let clamped =
            map (\<lambda>i. padVisible t
                        (truncateToWidth t (truncateCell (cols ! i) (int (widths ! i)))
                           (int (widths ! i)))
                        (widths ! i))
                [0..<length cols];
          row = js ''| '' @ join (js '' | '') clamped @ js '' |''
      in clip t maxWidth row)"

text \<open>
  The border line \<open>theme.fg("border", maxWidth ? truncateToWidth(separator, maxWidth) :
  separator)\<close>, which the source writes out at each of its four uses.
\<close>

definition borderLine :: "tui \<Rightarrow> theme \<Rightarrow> int option \<Rightarrow> nat list \<Rightarrow> jsstring" where
  "borderLine t th maxWidth widths = fg th (js ''border'') (clip t maxWidth (separator widths))"

text \<open>
  The \<open>for (const row of rows)\<close> loop with its variable \<open>lastProvider\<close>, over the rows
  paired with their cells. The loop calls \<open>barValue(row)\<close> once more for each row; the
  call is pure and gives the cell already computed for \<open>data\<close>, which the model passes
  along.
\<close>

fun rowLines ::
  "tui \<Rightarrow> theme \<Rightarrow> int option \<Rightarrow> nat list \<Rightarrow> jsstring option \<Rightarrow>
   (QuotaRow \<times> jsstring list) list \<Rightarrow> jsstring list" where
  "rowLines t th maxWidth widths lastProvider [] = []"
| "rowLines t th maxWidth widths lastProvider ((row, cells) # rest) =
     (if lastProvider \<noteq> None \<and> Some (provider row) \<noteq> lastProvider
      then [borderLine t th maxWidth widths]
      else [])
     @ [renderRow t maxWidth widths cells]
     @ rowLines t th maxWidth widths (Some (provider row)) rest"

text \<open>
  \<open>renderQuotaTable\<close>. The result is \<open>None\<close> when the shrink loop does not end,
  \<open>Some (Inl e)\<close> when \<open>e\<close> is thrown, \<open>Some (Inr lines)\<close> when the lines are returned.
\<close>

definition tableLines ::
  "tui \<Rightarrow> theme \<Rightarrow> int option \<Rightarrow> nat list \<Rightarrow> (QuotaRow \<times> jsstring list) list \<Rightarrow>
   jsstring list" where
  "tableLines t th maxWidth widths rows =
     [fg th (js ''accent'') (bold th (js ''Provider Quotas'')),
      borderLine t th maxWidth widths,
      fg th (js ''accent'') (renderRow t maxWidth widths headers),
      borderLine t th maxWidth widths]
     @ rowLines t th maxWidth widths None rows
     @ [borderLine t th maxWidth widths]"

definition renderQuotaTable ::
  "tui \<Rightarrow> theme \<Rightarrow> QuotaRow list \<Rightarrow> int option \<Rightarrow> (js_error + jsstring list) option" where
  "renderQuotaTable t th rows maxWidth =
     (case all_cells rows of
        Inl e \<Rightarrow> Some (Inl e)
      | Inr cells \<Rightarrow>
          (case shrinkWidths maxWidth (naturalWidths t cells) of
             None \<Rightarrow> None
           | Some widths \<Rightarrow> Some (Inr (tableLines t th maxWidth widths (zip rows cells)))))"

section \<open>Provider data\<close>

text \<open>
  The interfaces of the source, as records; an optional field is an option. Field names
  shared by several interfaces carry a prefix: \<open>cfg_plan\<close> and \<open>cfg_login\<close> are
  \<open>plan\<close> and \<open>login\<close> of \<open>AuthProviderConfig\<close>, \<open>tier_id\<close> and \<open>tier_name\<close> are
  \<open>id\<close> and \<open>name\<close> of \<open>GoogleTierInfo\<close>, \<open>load_plan\<close> and
  \<open>load_subscriptionPlan\<close> belong to \<open>GoogleLoadCodeAssistResponse\<close>. A
  \<open>Record<string, T>\<close> is the list of its entries in the order \<open>Object.entries\<close> gives.
\<close>

record AuthProviderConfig =
  access :: "jsstring option"
  refresh :: "jsstring option"
  projectId :: "jsstring option"
  email :: "jsstring option"
  accountId :: "jsstring option"
  cfg_plan :: "jsstring option"
  subscriptionPlan :: "jsstring option"
  cfg_login :: "jsstring option"

record QuotaInfo =
  remainingFraction :: "real option"
  resetTime :: "jsstring option"
  isExhausted :: "bool option"

record ModelInfo =
  quotaInfo :: "QuotaInfo option"

record ModelSortGroup =
  modelIds :: "jsstring list option"

record ModelSort =
  groups :: "ModelSortGroup list option"

record FetchAvailableModelsResponse =
  models :: "(jsstring \<times> ModelInfo) list option"
  agentModelSorts :: "ModelSort list option"

record GoogleTierInfo =
  tier_id :: "jsstring option"
  tier_name :: "jsstring option"

text \<open>\<open>cloudaicompanionProject\<close> is a string or an object with an optional \<open>id\<close>.\<close>

datatype project_ref = ProjectString jsstring | ProjectObject "jsstring option"

record GoogleLoadCodeAssistResponse =
  availablePromptCredits :: "real option"
  cloudaicompanionProject :: "project_ref option"
  load_plan :: "jsstring option"
  load_subscriptionPlan :: "jsstring option"
  currentTier :: "GoogleTierInfo option"

record QuotaSnapshot =
  entitlement :: "real option"
  remaining :: "real option"
  percent_remaining :: "real option"
  unlimited :: "bool option"

record CopilotUserResponse =
  login :: jsstring
  copilot_plan :: "jsstring option"
  sku :: "jsstring option"
  access_type_sku :: "jsstring option"
  quota_reset_date_utc :: "jsstring option"
  quota_snapshots :: "(jsstring \<times> QuotaSnapshot) list option"

record CodexRateWindow =
  usedPercent :: "real option"
  resetAt :: "real option"
  resetAfterSeconds :: "real option"
  windowMinutes :: "real option"

record CodexProbeQuota =
  planType :: "jsstring option"
  primary :: "CodexRateWindow option"
  secondary :: "CodexRateWindow option"
  primaryOverSecondaryPercent :: "real option"
  creditsUnlimited :: "bool option"
  creditsHasCredits :: "bool option"
  creditsBalance :: "real option"

text \<open>What \<open>fetchGoogleQuota\<close> and \<open>fetchOpenAICodexQuota\<close> return.\<close>

record GoogleData =
  loadData :: GoogleLoadCodeAssistResponse
  modelsData :: "FetchAvailableModelsResponse option"
  modelsError :: "jsstring option"

record CodexData =
  codex_accountId :: jsstring
  emailFromToken :: "jsstring option"
  planFromToken :: "jsstring option"
  quota :: CodexProbeQuota

text \<open>The tagged union \<open>ProviderResult\<close>: the tag with its payload, beside the provider
  and its configuration.\<close>

datatype result_kind =
  Copilot CopilotUserResponse
| Antigravity GoogleData
| GeminiCli GoogleData
| OpenAICodex CodexData
| ErrorKind jsstring
| Unsupported

record ProviderResult =
  res_provider :: jsstring
  res_config :: AuthProviderConfig
  res_kind :: result_kind

text \<open>A parsed JSON value; an object is the list of its members, each key once.\<close>

datatype json =
  JNull
| JBool bool
| JNumber real
| JString jsstring
| JArray "json list"
| JObject "(jsstring \<times> json) list"

text \<open>
  The built-ins of the JavaScript runtime that the code calls are parameters:
  number formatting (\<open>n.toFixed(d)\<close>, \<open>String(n)\<close>), \<open>Number(s)\<close> where it is finite,
  \<open>s.toLowerCase()\<close>, the time value of \<open>new Date(s)\<close> (\<open>None\<close> for an invalid date),
  the locale's date and time strings of a time value, \<open>a.localeCompare(b)\<close>,
  \<open>Buffer.from(s, "base64").toString("utf8")\<close>, which never throws, \<open>JSON.parse\<close>, which
  throws on malformed text, the \<open>os\<close> strings, and the message text of the built-in
  exceptions.
\<close>

record runtime =
  toFixed :: "real \<Rightarrow> nat \<Rightarrow> jsstring"
  numberToString :: "real \<Rightarrow> jsstring"
  finiteNumber :: "jsstring \<Rightarrow> real option"
  toLowerCase :: "jsstring \<Rightarrow> jsstring"
  dateParse :: "jsstring \<Rightarrow> real option"
  toLocaleDateString :: "real \<Rightarrow> jsstring"
  toLocaleTimeString :: "real \<Rightarrow> jsstring"
  localeCompare :: "jsstring \<Rightarrow> jsstring \<Rightarrow> int"
  base64_utf8 :: "jsstring \<Rightarrow> jsstring"
  json_parse :: "jsstring \<Rightarrow> js_error + json"
  os_platform :: jsstring
  os_release :: jsstring
  os_arch :: jsstring
  error_text :: "js_error \<Rightarrow> jsstring"

text \<open>
  \<open>error instanceof Error ? error.message : String(error)\<close>: the message of an
  \<open>Error\<close> the code throws is its argument, that of a built-in exception is the
  runtime's.
\<close>

definition error_message :: "runtime \<Rightarrow> js_error \<Rightarrow> jsstring" where
  "error_message rt e = (case e of Error msg \<Rightarrow> msg | _ \<Rightarrow> error_text rt e)"

text \<open>The decimal digits of a natural number, as \<open>${response.status}\<close> prints a status.\<close>

fun decimal :: "nat \<Rightarrow> jsstring" where
  "decimal n = (if n < 10 then [48 + n] else decimal (n div 10) @ [48 + n mod 10])"

section \<open>Token claims\<close>

text \<open>\<open>token.split(".")\<close>: the segments between the dots; an empty string has one segment.\<close>

fun split_dot :: "jsstring \<Rightarrow> jsstring list" where
  "split_dot [] = [[]]"
| "split_dot (c # cs) =
     (if c = 46 then [] # split_dot cs
      else (case split_dot cs of [] \<Rightarrow> [[c]] | seg # segs \<Rightarrow> (c # seg) # segs))"

text \<open>\<open>.replace(/-/g, "+").replace(/_/g, "/")\<close> and the padding with \<open>=\<close> to a multiple
  of four.\<close>

definition base64url_to_base64 :: "jsstring \<Rightarrow> jsstring" where
  "base64url_to_base64 s = map (\<lambda>c. if c = 95 then 47 else c) (map (\<lambda>c. if c = 45 then 43 else c) s)"

definition pad4 :: "jsstring \<Rightarrow> jsstring" where
  "pad4 base64 = base64 @ replicate ((4 - length base64 mod 4) mod 4) 61"

text \<open>
  \<open>decodeJwtPayload\<close>. The body of the \<open>try\<close> is \<open>decode_segment\<close>; the \<open>catch\<close> turns
  whatever it throws into \<open>undefined\<close>. The result is a sum, so that a throw out of the
  function would show as \<open>Inl\<close>.
\<close>

definition decode_segment :: "runtime \<Rightarrow> jsstring \<Rightarrow> js_error + json" where
  "decode_segment rt segment =
     (let base64 = base64url_to_base64 segment;
          padded = pad4 base64;
          json_text = base64_utf8 rt padded
      in json_parse rt json_text)"

definition decodeJwtPayload :: "runtime \<Rightarrow> jsstring option \<Rightarrow> js_error + json option" where
  "decodeJwtPayload rt token =
     (if \<not> truthy token then Inr None
      else let parts = split_dot (the token)
           in if length parts \<noteq> 3 then Inr None
              else (case decode_segment rt (parts ! 1) of
                      Inl e \<Rightarrow> Inr None
                    | Inr v \<Rightarrow> Inr (Some v)))"

text \<open>\<open>asRecord\<close>: an object that is not null and not an array.\<close>

fun asRecord :: "json option \<Rightarrow> (jsstring \<times> json) list option" where
  "asRecord (Some (JObject members)) = Some members"
| "asRecord v = None"

text \<open>\<open>jwt?.[key]\<close> and \<open>typeof claim?.field === "string" ? claim.field : undefined\<close>.\<close>

fun member :: "json option \<Rightarrow> jsstring \<Rightarrow> json option" where
  "member (Some (JObject members)) key = map_of members key"
| "member v key = None"

fun string_field :: "(jsstring \<times> json) list option \<Rightarrow> jsstring \<Rightarrow> jsstring option" where
  "string_field (Some members) key =
     (case map_of members key of Some (JString s) \<Rightarrow> Some s | _ \<Rightarrow> None)"
| "string_field None key = None"

definition OPENAI_AUTH_CLAIM :: jsstring where
  "OPENAI_AUTH_CLAIM = js ''https://api.openai.com/auth''"

definition OPENAI_PROFILE_CLAIM :: jsstring where
  "OPENAI_PROFILE_CLAIM = js ''https://api.openai.com/profile''"

section \<open>The adapters\<close>

text \<open>
  A request as \<open>fetch\<close> gets it (the body is the value that \<open>JSON.stringify\<close> prints) and
  a response: its status, its headers, the result of \<open>response.json()\<close> read at the
  interface type the code casts it to, and \<open>response.text()\<close>. The network is a
  parameter, one function per endpoint; \<open>Inl\<close> is a \<open>fetch\<close> that rejects.
\<close>

record request =
  url :: jsstring
  http_method :: jsstring
  req_headers :: "(jsstring \<times> jsstring) list"
  req_body :: "json option"

record 'a response =
  status :: nat
  headers_get :: "jsstring \<Rightarrow> jsstring option"
  json_body :: "js_error + 'a"
  text_body :: jsstring

definition ok :: "'a response \<Rightarrow> bool" where
  "ok r \<longleftrightarrow> 200 \<le> status r \<and> status r \<le> 299"

record network =
  copilotUser :: "request \<Rightarrow> js_error + CopilotUserResponse response"
  loadCodeAssist :: "request \<Rightarrow> js_error + GoogleLoadCodeAssistResponse response"
  fetchAvailableModels :: "request \<Rightarrow> js_error + FetchAvailableModelsResponse response"
  codexResponses :: "request \<Rightarrow> js_error + unit response"

definition COPILOT_HEADERS :: "(jsstring \<times> jsstring) list" where
  "COPILOT_HEADERS =
     [(js ''User-Agent'', js ''GitHubCopilotChat/0.35.0''),
      (js ''Editor-Version'', js ''vscode/1.107.0''),
      (js ''Editor-Plugin-Version'', js ''copilot-chat/0.35.0''),
      (js ''Copilot-Integration-Id'', js ''vscode-chat'')]"

definition copilotRequest :: "AuthProviderConfig \<Rightarrow> request" where
  "copilotRequest config =
     \<lparr>url = js ''https://api.github.com/copilot_internal/user'',
      http_method = js ''GET'',
      req_headers = (js ''Authorization'', js ''Bearer '' @ the (refresh config)) # COPILOT_HEADERS,
      req_body = None\<rparr>"

text \<open>\<open>fetchCopilotQuota\<close>.\<close>

definition fetchCopilotQuota :: "network \<Rightarrow> AuthProviderConfig \<Rightarrow> js_error + CopilotUserResponse" where
  "fetchCopilotQuota net config =
     (if \<not> truthy (refresh config) then Inl (Error (js ''missing refresh token''))
      else
        case copilotUser net (copilotRequest config) of
          Inl e \<Rightarrow> Inl e
        | Inr resp \<Rightarrow>
            if \<not> ok resp
            then Inl (Error (js ''fetch failed ('' @ decimal (status resp) @ js '')''))
            else json_body resp)"

definition GOOGLE_BASE_URL :: jsstring where
  "GOOGLE_BASE_URL = js ''https://cloudcode-pa.googleapis.com''"

definition CHATGPT_BASE_URL :: jsstring where
  "CHATGPT_BASE_URL = js ''https://chatgpt.com/backend-api''"

datatype ide_type = ANTIGRAVITY | IDE_UNSPECIFIED

definition ide_name :: "ide_type \<Rightarrow> jsstring" where
  "ide_name ideType = (case ideType of ANTIGRAVITY \<Rightarrow> js ''ANTIGRAVITY''
     | IDE_UNSPECIFIED \<Rightarrow> js ''IDE_UNSPECIFIED'')"

definition google_headers :: "AuthProviderConfig \<Rightarrow> ide_type \<Rightarrow> (jsstring \<times> jsstring) list" where
  "google_headers config ideType =
     [(js ''Authorization'', js ''Bearer '' @ the (access config)),
      (js ''Content-Type'', js ''application/json''),
      (js ''User-Agent'',
         if ideType = ANTIGRAVITY then js ''antigravity'' else js ''google-api-nodejs-client/9.15.1'')]
     @ (if ideType = IDE_UNSPECIFIED then [(js ''X-Goog-Api-Client'', js ''gl-node/22.17.0'')]
        else [])"

definition loadBody :: "AuthProviderConfig \<Rightarrow> ide_type \<Rightarrow> json" where
  "loadBody config ideType =
     (let metadata = [(js ''ideType'', JString (ide_name ideType)),
                      (js ''platform'', JString (js ''PLATFORM_UNSPECIFIED'')),
                      (js ''pluginType'', JString (js ''GEMINI''))]
      in if ideType = IDE_UNSPECIFIED \<and> truthy (projectId config)
         then JObject [(js ''metadata'',
                          JObject (metadata @ [(js ''duetProject'', JString (the (projectId config)))])),
                       (js ''cloudaicompanionProject'', JString (the (projectId config)))]
         else JObject [(js ''metadata'', JObject metadata)])"

text \<open>\<open>config.projectId || (typeof p === "string" ? p : p?.id)\<close>.\<close>

definition resolvedProjectId ::
  "AuthProviderConfig \<Rightarrow> GoogleLoadCodeAssistResponse \<Rightarrow> jsstring option" where
  "resolvedProjectId config ld =
     js_or (projectId config)
       (case cloudaicompanionProject ld of
          None \<Rightarrow> None
        | Some (ProjectString s) \<Rightarrow> Some s
        | Some (ProjectObject i) \<Rightarrow> i)"

text \<open>The two requests of \<open>fetchGoogleQuota\<close>.\<close>

definition loadRequest :: "AuthProviderConfig \<Rightarrow> ide_type \<Rightarrow> request" where
  "loadRequest config ideType =
     \<lparr>url = GOOGLE_BASE_URL @ js ''/v1internal:loadCodeAssist'',
      http_method = js ''POST'',
      req_headers = google_headers config ideType,
      req_body = Some (loadBody config ideType)\<rparr>"

definition modelsRequest :: "AuthProviderConfig \<Rightarrow> ide_type \<Rightarrow> jsstring \<Rightarrow> request" where
  "modelsRequest config ideType project =
     \<lparr>url = GOOGLE_BASE_URL @ js ''/v1internal:fetchAvailableModels'',
      http_method = js ''POST'',
      req_headers = google_headers config ideType,
      req_body = Some (JObject [(js ''project'', JString project)])\<rparr>"

text \<open>
  \<open>fetchGoogleQuota\<close>: the first call is fatal when it fails, the second one only
  leaves a \<open>modelsError\<close>.
\<close>

definition fetchGoogleQuota ::
  "network \<Rightarrow> AuthProviderConfig \<Rightarrow> ide_type \<Rightarrow> js_error + GoogleData" where
  "fetchGoogleQuota net config ideType =
     (if \<not> truthy (access config) then Inl (Error (js ''missing access token''))
      else
        case loadCodeAssist net (loadRequest config ideType) of
          Inl e \<Rightarrow> Inl e
        | Inr loadResponse \<Rightarrow>
            if \<not> ok loadResponse
            then Inl (Error (js ''loadCodeAssist failed ('' @ decimal (status loadResponse) @ js '')''))
            else
              case json_body loadResponse of
                Inl e \<Rightarrow> Inl e
              | Inr ld \<Rightarrow>
                  if truthy (resolvedProjectId config ld)
                  then
                    case fetchAvailableModels net
                           (modelsRequest config ideType (the (resolvedProjectId config ld))) of
                      Inl e \<Rightarrow> Inl e
                    | Inr modelsResponse \<Rightarrow>
                        if ok modelsResponse
                        then (case json_body modelsResponse of
                                Inl e \<Rightarrow> Inl e
                              | Inr md \<Rightarrow>
                                  Inr \<lparr>loadData = ld, modelsData = Some md, modelsError = None\<rparr>)
                        else Inr \<lparr>loadData = ld, modelsData = None,
                                   modelsError = Some (js ''fetchAvailableModels failed (''
                                     @ decimal (status modelsResponse) @ js '')'')\<rparr>
                  else Inr \<lparr>loadData = ld, modelsData = None, modelsError = None\<rparr>)"

text \<open>\<open>parseHeaderNumber\<close>, \<open>parseHeaderBool\<close>, \<open>parseCodexWindow\<close>.\<close>

definition parseHeaderNumber :: "runtime \<Rightarrow> jsstring option \<Rightarrow> real option" where
  "parseHeaderNumber rt v = (if \<not> truthy v then None else finiteNumber rt (the v))"

definition parseHeaderBool :: "runtime \<Rightarrow> jsstring option \<Rightarrow> bool option" where
  "parseHeaderBool rt v =
     (if \<not> truthy v then None
      else if toLowerCase rt (the v) = js ''true'' then Some True
      else if toLowerCase rt (the v) = js ''false'' then Some False
      else None)"

definition parseCodexWindow ::
  "runtime \<Rightarrow> (jsstring \<Rightarrow> jsstring option) \<Rightarrow> jsstring \<Rightarrow> CodexRateWindow" where
  "parseCodexWindow rt hdrs prefix =
     \<lparr>usedPercent = parseHeaderNumber rt (hdrs (prefix @ js ''-used-percent'')),
      resetAt = parseHeaderNumber rt (hdrs (prefix @ js ''-reset-at'')),
      resetAfterSeconds = parseHeaderNumber rt (hdrs (prefix @ js ''-reset-after-seconds'')),
      windowMinutes = parseHeaderNumber rt (hdrs (prefix @ js ''-window-minutes''))\<rparr>"

definition probeBody :: json where
  "probeBody =
     JObject [(js ''model'', JString (js ''gpt-5.3-codex'')),
              (js ''store'', JBool False),
              (js ''stream'', JBool True),
              (js ''instructions'', JString (js ''You are a quota probe.'')),
              (js ''input'',
                 JArray [JObject [(js ''role'', JString (js ''user'')),
                                  (js ''content'',
                                     JArray [JObject [(js ''type'', JString (js ''input_text'')),
                                                      (js ''text'', JString (js ''ping''))]])]]),
              (js ''text'', JObject [(js ''verbosity'', JString (js ''low''))])]"

definition codex_headers :: "runtime \<Rightarrow> AuthProviderConfig \<Rightarrow> jsstring \<Rightarrow> (jsstring \<times> jsstring) list" where
  "codex_headers rt config account_id =
     [(js ''Authorization'', js ''Bearer '' @ the (access config)),
      (js ''chatgpt-account-id'', account_id),
      (js ''originator'', js ''pi''),
      (js ''OpenAI-Beta'', js ''responses=experimental''),
      (js ''User-Agent'',
         js ''pi ('' @ os_platform rt @ js '' '' @ os_release rt @ js ''; '' @ os_arch rt @ js '')''),
      (js ''accept'', js ''text/event-stream''),
      (js ''content-type'', js ''application/json'')]"

definition codexRequest :: "runtime \<Rightarrow> AuthProviderConfig \<Rightarrow> jsstring \<Rightarrow> request" where
  "codexRequest rt config account_id =
     \<lparr>url = CHATGPT_BASE_URL @ js ''/codex/responses'',
      http_method = js ''POST'',
      req_headers = codex_headers rt config account_id,
      req_body = Some probeBody\<rparr>"

text \<open>
  \<open>fetchOpenAICodexQuota\<close>. Cancelling the body stream sits in a \<open>try\<close> with an empty
  \<open>catch\<close> and has no effect on the result.
\<close>

definition fetchOpenAICodexQuota ::
  "runtime \<Rightarrow> network \<Rightarrow> AuthProviderConfig \<Rightarrow> js_error + CodexData" where
  "fetchOpenAICodexQuota rt net config =
     (if \<not> truthy (access config) then Inl (Error (js ''missing access token''))
      else
        case decodeJwtPayload rt (access config) of
          Inl e \<Rightarrow> Inl e
        | Inr jwt \<Rightarrow>
            let authClaim = asRecord (member jwt OPENAI_AUTH_CLAIM);
                profileClaim = asRecord (member jwt OPENAI_PROFILE_CLAIM);
                account_id = js_or (accountId config)
                               (string_field authClaim (js ''chatgpt_account_id''))
            in if \<not> truthy account_id then Inl (Error (js ''missing account id''))
               else
                 case codexResponses net (codexRequest rt config (the account_id)) of
                   Inl e \<Rightarrow> Inl e
                 | Inr resp \<Rightarrow>
                     if \<not> ok resp
                     then Inl (Error (js ''codex probe failed ('' @ decimal (status resp)
                                @ js ''): '' @ take 180 (text_body resp)))
                     else
                       Inr \<lparr>codex_accountId = the account_id,
                            emailFromToken = string_field profileClaim (js ''email''),
                            planFromToken = string_field authClaim (js ''chatgpt_plan_type''),
                            quota =
                              \<lparr>planType = js_or (headers_get resp (js ''x-codex-plan-type'')) None,
                               primary = Some (parseCodexWindow rt (headers_get resp)
                                                 (js ''x-codex-primary'')),
                               secondary = Some (parseCodexWindow rt (headers_get resp)
                                                   (js ''x-codex-secondary'')),
                               primaryOverSecondaryPercent =
                                 parseHeaderNumber rt (headers_get resp
                                   (js ''x-codex-primary-over-secondary-limit-percent'')),
                               creditsUnlimited =
                                 parseHeaderBool rt (headers_get resp (js ''x-codex-credits-unlimited'')),
                               creditsHasCredits =
                                 parseHeaderBool rt (headers_get resp (js ''x-codex-credits-has-credits'')),
                               creditsBalance =
                                 parseHeaderNumber rt (headers_get resp (js ''x-codex-credits-balance''))\<rparr>\<rparr>)"

section \<open>Rows from provider results\<close>

definition getAccountHint :: "jsstring \<Rightarrow> AuthProviderConfig \<Rightarrow> jsstring" where
  "getAccountHint prov config =
     or_else (js_or (js_or (email config) (cfg_login config)) (accountId config)) prov"

text \<open>
  \<open>new Date(ms)\<close> clips its argument: beyond 8.64e15 ms the date is invalid, otherwise the
  time value is the argument cut to an integer.
\<close>

definition timeClip :: "real \<Rightarrow> real option" where
  "timeClip t =
     (if \<bar>t\<bar> > 8640000000000000 then None
      else Some (of_int (if 0 \<le> t then \<lfloor>t\<rfloor> else \<lceil>t\<rceil>)))"

definition formatDateUtc :: "runtime \<Rightarrow> jsstring \<Rightarrow> jsstring" where
  "formatDateUtc rt v =
     (case dateParse rt v of
        None \<Rightarrow> js ''unknown''
      | Some t \<Rightarrow> toLocaleDateString rt t @ js '' '' @ toLocaleTimeString rt t)"

definition formatEpochUtc :: "runtime \<Rightarrow> real option \<Rightarrow> jsstring" where
  "formatEpochUtc rt seconds =
     (case seconds of
        None \<Rightarrow> js ''unknown''
      | Some s \<Rightarrow>
          if s = 0 then js ''unknown''
          else (case timeClip (s * 1000) of
                  None \<Rightarrow> js ''unknown''
                | Some t \<Rightarrow> toLocaleDateString rt t @ js '' '' @ toLocaleTimeString rt t))"

text \<open>\<open>.sort(([a], [b]) => a.localeCompare(b))\<close>: a stable sort of the entries by key.\<close>

fun insert_entry ::
  "runtime \<Rightarrow> jsstring \<times> 'a \<Rightarrow> (jsstring \<times> 'a) list \<Rightarrow> (jsstring \<times> 'a) list" where
  "insert_entry rt x [] = [x]"
| "insert_entry rt x (y # ys) =
     (if localeCompare rt (fst x) (fst y) \<le> 0 then x # y # ys else y # insert_entry rt x ys)"

definition sort_entries :: "runtime \<Rightarrow> (jsstring \<times> 'a) list \<Rightarrow> (jsstring \<times> 'a) list" where
  "sort_entries rt xs = foldr (insert_entry rt) xs []"

text \<open>\<open>modelsData.agentModelSorts?.[0]?.groups?.flatMap((g) => g.modelIds || []) || []\<close>.\<close>

definition recommendedIds :: "FetchAvailableModelsResponse \<Rightarrow> jsstring list" where
  "recommendedIds md =
     (case agentModelSorts md of
        Some (first # others) \<Rightarrow>
          (case groups first of
             Some gs \<Rightarrow> concat (map (\<lambda>g. case modelIds g of Some ids \<Rightarrow> ids | None \<Rightarrow> []) gs)
           | None \<Rightarrow> [])
      | _ \<Rightarrow> [])"

definition relevantModel :: "jsstring list \<Rightarrow> jsstring \<times> ModelInfo \<Rightarrow> bool" where
  "relevantModel recommended entry =
     (case quotaInfo (snd entry) of
        None \<Rightarrow> False
      | Some q \<Rightarrow>
          fst entry \<in> set recommended \<or>
          (case remainingFraction q of Some f \<Rightarrow> f < 1 | None \<Rightarrow> False))"

definition modelRow ::
  "runtime \<Rightarrow> jsstring \<Rightarrow> jsstring \<Rightarrow> jsstring \<Rightarrow> jsstring \<times> ModelInfo \<Rightarrow> QuotaRow" where
  "modelRow rt prov acct pl entry =
     (let fraction = (case quotaInfo (snd entry) of Some q \<Rightarrow> remainingFraction q | None \<Rightarrow> None);
          reset_time = (case quotaInfo (snd entry) of Some q \<Rightarrow> resetTime q | None \<Rightarrow> None)
      in \<lparr>provider = prov, account = acct, plan = pl, metric = fst entry,
           cell_value = (case fraction of
                           Some f \<Rightarrow> toFixed rt (f * 100) 1 @ js ''%''
                         | None \<Rightarrow> js ''N/A''),
           reset = (if truthy reset_time then formatDateUtc rt (the reset_time)
                    else js ''unknown''),
           progressRemaining = fraction\<rparr>)"

definition collectGoogleModelRows ::
  "runtime \<Rightarrow> jsstring \<Rightarrow> jsstring \<Rightarrow> jsstring \<Rightarrow> FetchAvailableModelsResponse option \<Rightarrow>
   QuotaRow list" where
  "collectGoogleModelRows rt prov acct pl md_opt =
     (case md_opt of
        None \<Rightarrow> []
      | Some md \<Rightarrow>
          (case models md of
             None \<Rightarrow> []
           | Some entries \<Rightarrow>
               map (modelRow rt prov acct pl)
                 (sort_entries rt (filter (relevantModel (recommendedIds md)) entries))))"

definition codexWindowFields :: "runtime \<Rightarrow> CodexRateWindow option \<Rightarrow> jsstring \<times> jsstring" where
  "codexWindowFields rt window =
     (case window of
        None \<Rightarrow> (js ''n/a'', js ''unknown'')
      | Some w \<Rightarrow>
          (case usedPercent w of
             None \<Rightarrow> (js ''n/a'', js ''unknown'')
           | Some u \<Rightarrow>
               (let used = max 0 (min 100 u)
                in (toFixed rt (100 - used) 1 @ js ''% rem'', formatEpochUtc rt (resetAt w)))))"

text \<open>A row without a progress fraction, as the handler's object literals build it.\<close>

definition mkRow ::
  "jsstring \<Rightarrow> jsstring \<Rightarrow> jsstring \<Rightarrow> jsstring \<Rightarrow> jsstring \<Rightarrow> jsstring \<Rightarrow> QuotaRow" where
  "mkRow prov acct pl m v r =
     \<lparr>provider = prov, account = acct, plan = pl, metric = m, cell_value = v, reset = r,
      progressRemaining = None\<rparr>"

text \<open>The Copilot branch: the value of one snapshot, and the rows of the branch.\<close>

definition snapshotValue :: "runtime \<Rightarrow> QuotaSnapshot \<Rightarrow> jsstring" where
  "snapshotValue rt snapshot =
     (if unlimited snapshot = Some True then js ''Unlimited''
      else (case (percent_remaining snapshot, remaining snapshot, entitlement snapshot) of
              (Some p, Some r, Some e) \<Rightarrow>
                toFixed rt p 1 @ js ''% ('' @ numberToString rt r @ js ''/''
                  @ numberToString rt e @ js '')''
            | _ \<Rightarrow> js ''Partial snapshot data''))"

definition copilotRows ::
  "runtime \<Rightarrow> jsstring \<Rightarrow> AuthProviderConfig \<Rightarrow> CopilotUserResponse \<Rightarrow> QuotaRow list" where
  "copilotRows rt prov config d =
     (let acct = or_else (Some (login d)) (getAccountHint prov config);
          pl = or_else (js_or (copilot_plan d) (sku d)) (js ''unknown'')
      in (if truthy (access_type_sku d)
          then [mkRow prov acct pl (js ''sku'') (the (access_type_sku d)) (js ''-'')]
          else [])
         @ (case quota_snapshots d of
              Some snapshots \<Rightarrow>
                map (\<lambda>(snapshot_id, snapshot).
                       mkRow prov acct pl snapshot_id (snapshotValue rt snapshot)
                         (if truthy (quota_reset_date_utc d)
                          then formatDateUtc rt (the (quota_reset_date_utc d))
                          else js ''-''))
                    snapshots
            | None \<Rightarrow>
                [mkRow prov acct pl (js ''quota'') (js ''No snapshot data'') (js ''-'')]))"

text \<open>The branch of the two Google kinds.\<close>

definition googlePlan :: "GoogleLoadCodeAssistResponse \<Rightarrow> jsstring" where
  "googlePlan ld =
     or_else
       (js_or
          (js_or
             (js_or (case currentTier ld of Some tier \<Rightarrow> tier_name tier | None \<Rightarrow> None)
                    (case currentTier ld of Some tier \<Rightarrow> tier_id tier | None \<Rightarrow> None))
             (load_plan ld))
          (load_subscriptionPlan ld))
       (js ''unknown'')"

definition googleRows ::
  "runtime \<Rightarrow> jsstring \<Rightarrow> AuthProviderConfig \<Rightarrow> GoogleData \<Rightarrow> QuotaRow list" where
  "googleRows rt prov config d =
     (let acct = or_else (email config) (getAccountHint prov config);
          pl = googlePlan (loadData d)
      in (case availablePromptCredits (loadData d) of
            Some credits \<Rightarrow>
              [mkRow prov acct pl (js ''prompt_credits'') (numberToString rt credits) (js ''-'')]
          | None \<Rightarrow> [])
         @ collectGoogleModelRows rt prov acct pl (modelsData d)
         @ (if truthy (modelsError d)
            then [mkRow prov acct pl (js ''model_quotas'') (the (modelsError d)) (js ''-'')]
            else [])
         @ (if availablePromptCredits (loadData d) = None
               \<and> (case modelsData d of None \<Rightarrow> True | Some md \<Rightarrow> models md = None)
               \<and> \<not> truthy (modelsError d)
            then [mkRow prov acct pl (js ''quota'') (js ''No quota data'') (js ''-'')]
            else []))"

text \<open>The Codex branch.\<close>

definition codexRows ::
  "runtime \<Rightarrow> jsstring \<Rightarrow> AuthProviderConfig \<Rightarrow> CodexData \<Rightarrow> QuotaRow list" where
  "codexRows rt prov config d =
     (let acct = or_else
                   (js_or (js_or (emailFromToken d) (email config)) (Some (codex_accountId d)))
                   (getAccountHint prov config);
          pl = or_else (js_or (planType (quota d)) (planFromToken d)) (js ''unknown'');
          first = codexWindowFields rt (primary (quota d));
          second = codexWindowFields rt (secondary (quota d))
      in [mkRow prov acct pl (js ''codex_primary'') (fst first) (snd first),
          mkRow prov acct pl (js ''codex_secondary'') (fst second) (snd second)]
         @ (case primaryOverSecondaryPercent (quota d) of
              Some ratio \<Rightarrow>
                [mkRow prov acct pl (js ''primary_over_secondary'') (toFixed rt ratio 1 @ js ''%'')
                   (js ''-'')]
            | None \<Rightarrow> [])
         @ (if creditsUnlimited (quota d) = Some True
            then [mkRow prov acct pl (js ''credits'') (js ''Unlimited'') (js ''-'')]
            else if creditsHasCredits (quota d) = Some True \<and> creditsBalance (quota d) \<noteq> None
            then [mkRow prov acct pl (js ''credits'')
                    (toFixed rt (the (creditsBalance (quota d))) 2) (js ''-'')]
            else []))"

text \<open>The rows one entry of \<open>providerResults\<close> pushes.\<close>

definition entryRows :: "runtime \<Rightarrow> ProviderResult \<Rightarrow> QuotaRow list" where
  "entryRows rt entry =
     (let prov = res_provider entry; config = res_config entry
      in case res_kind entry of
           Copilot d \<Rightarrow> copilotRows rt prov config d
         | Antigravity d \<Rightarrow> googleRows rt prov config d
         | GeminiCli d \<Rightarrow> googleRows rt prov config d
         | OpenAICodex d \<Rightarrow> codexRows rt prov config d
         | ErrorKind msg \<Rightarrow>
             [mkRow prov (getAccountHint prov config)
                (or_else (js_or (cfg_plan config) (subscriptionPlan config)) (js ''unknown''))
                (js ''error'') (js ''Failed to fetch quota: '' @ msg) (js ''-'')]
         | Unsupported \<Rightarrow>
             [mkRow prov (getAccountHint prov config)
                (or_else (js_or (cfg_plan config) (subscriptionPlan config)) (js ''unknown''))
                (js ''quota'') (js ''Unavailable for this provider'') (js ''-'')])"

text \<open>
  Inside the widget factory: the \<open>for (const entry of providerResults)\<close> loop, which
  pushes onto \<open>rows\<close>, and the placeholder pushed when \<open>rows.length === 0\<close>. The
  factory runs only when the handler sets the widget, which it does for a non-empty list
  of providers (see \<open>quotaHandler\<close>).
\<close>

definition collectRows :: "runtime \<Rightarrow> ProviderResult list \<Rightarrow> QuotaRow list" where
  "collectRows rt providerResults = fold (\<lambda>entry rows. rows @ entryRows rt entry) providerResults []"

definition placeholderRow :: QuotaRow where
  "placeholderRow = mkRow (js ''-'') (js ''-'') (js ''-'') (js ''quota'') (js ''No data'') (js ''-'')"

definition widgetRows :: "runtime \<Rightarrow> ProviderResult list \<Rightarrow> QuotaRow list" where
  "widgetRows rt providerResults =
     (let rows = collectRows rt providerResults
      in if length rows = 0 then rows @ [placeholderRow] else rows)"

text \<open>The widget's \<open>render(width)\<close>: the table and the closing hint.\<close>

definition widgetRender ::
  "runtime \<Rightarrow> tui \<Rightarrow> theme \<Rightarrow> ProviderResult list \<Rightarrow> int \<Rightarrow> (js_error + jsstring list) option" where
  "widgetRender rt t th providerResults width =
     (case renderQuotaTable t th (widgetRows rt providerResults) (Some width) of
        None \<Rightarrow> None
      | Some (Inl e) \<Rightarrow> Some (Inl e)
      | Some (Inr lines) \<Rightarrow>
          Some (Inr (lines @ [truncateToWidth t (fg th (js ''dim'') (js ''(Auto-closes in 30s)''))
                                 width])))"

section \<open>The command handler\<close>

text \<open>
  One task of the \<open>Promise.all\<close>: an entry of \<open>auth.json\<close> becomes a provider result.
  The raw configuration is \<open>None\<close> when \<open>normalizeProviderConfig\<close> gives
  \<open>undefined\<close> (the value is not an object); the \<open>catch\<close> turns whatever an adapter
  throws into an error result.
\<close>

definition empty_config :: AuthProviderConfig where
  "empty_config =
     \<lparr>access = None, refresh = None, projectId = None, email = None, accountId = None,
      cfg_plan = None, subscriptionPlan = None, cfg_login = None\<rparr>"

definition adapterResult ::
  "runtime \<Rightarrow> jsstring \<Rightarrow> AuthProviderConfig \<Rightarrow> ('a \<Rightarrow> result_kind) \<Rightarrow> js_error + 'a \<Rightarrow>
   ProviderResult" where
  "adapterResult rt prov config tag fetched =
     (case fetched of
        Inl e \<Rightarrow> \<lparr>res_provider = prov, res_config = config,
                   res_kind = ErrorKind (error_message rt e)\<rparr>
      | Inr d \<Rightarrow> \<lparr>res_provider = prov, res_config = config, res_kind = tag d\<rparr>)"

definition providerResult ::
  "runtime \<Rightarrow> network \<Rightarrow> jsstring \<times> AuthProviderConfig option \<Rightarrow> ProviderResult" where
  "providerResult rt net entry =
     (let prov = fst entry
      in case snd entry of
           None \<Rightarrow>
             \<lparr>res_provider = prov, res_config = empty_config,
              res_kind = ErrorKind (js ''Invalid provider config in auth.json'')\<rparr>
         | Some config \<Rightarrow>
             if prov = js ''github-copilot''
             then adapterResult rt prov config Copilot (fetchCopilotQuota net config)
             else if prov = js ''google-antigravity''
             then adapterResult rt prov config Antigravity (fetchGoogleQuota net config ANTIGRAVITY)
             else if prov = js ''google-gemini-cli''
             then adapterResult rt prov config GeminiCli (fetchGoogleQuota net config IDE_UNSPECIFIED)
             else if prov = js ''openai-codex''
             then adapterResult rt prov config OpenAICodex (fetchOpenAICodexQuota rt net config)
             else \<lparr>res_provider = prov, res_config = config, res_kind = Unsupported\<rparr>)"

text \<open>
  The handler of the \<open>quota\<close> command, as the list of what it does to the user
  interface: a notification with its level, or the widget with the rows its factory
  builds. Its input is what \<open>loadAuth()\<close> gives: the entries of \<open>auth.json\<close>, or what it
  throws. With no entry the handler warns and returns before any widget is set.
\<close>

datatype ui_effect = Notify jsstring jsstring | SetWidget "QuotaRow list"

definition quotaHandler ::
  "runtime \<Rightarrow> network \<Rightarrow> js_error + (jsstring \<times> AuthProviderConfig option) list \<Rightarrow>
   ui_effect list" where
  "quotaHandler rt net auth =
     (case auth of
        Inl e \<Rightarrow> [Notify (js ''Error fetching quotas: '' @ error_message rt e) (js ''error'')]
      | Inr providers \<Rightarrow>
          if length providers = 0
          then [Notify (js ''No logged-in providers found'') (js ''warning'')]
          else [Notify (js ''Fetching quotas...'') (js ''info''),
                SetWidget (widgetRows rt (map (providerResult rt net) providers))])"

section \<open>Sample parameters\<close>

text \<open>
  A runtime, a network and a configuration for the examples. The sample runtime parses
  only the text \<open>{}\<close> as JSON and decodes base64 as the identity; the sample network
  answers the Copilot call with 200 and an empty snapshot mapping, the first Google call
  with 200 and a tier, and the second with 500.
\<close>

definition sample_runtime :: runtime where
  "sample_runtime =
     \<lparr>toFixed = (\<lambda>x d. decimal (nat \<lfloor>x\<rfloor>)),
      numberToString = (\<lambda>x. decimal (nat \<lfloor>x\<rfloor>)),
      finiteNumber = (\<lambda>s. None),
      toLowerCase = (\<lambda>s. s),
      dateParse = (\<lambda>s. None),
      toLocaleDateString = (\<lambda>t. js ''01 Jan''),
      toLocaleTimeString = (\<lambda>t. js ''00:00''),
      localeCompare = (\<lambda>a b. if a = b then 0 else 1),
      base64_utf8 = (\<lambda>s. s),
      json_parse = (\<lambda>s. if s = js ''{}'' then Inr (JObject []) else Inl SyntaxError),
      os_platform = js ''linux'',
      os_release = js ''6'',
      os_arch = js ''x64'',
      error_text = (\<lambda>e. js ''error'')\<rparr>"

definition sample_config :: AuthProviderConfig where
  "sample_config =
     \<lparr>access = Some (js ''not.a-jwt''), refresh = Some (js ''r''), projectId = Some (js ''p1''),
      email = Some (js ''dev@example.com''), accountId = Some (js ''acct-1''), cfg_plan = None,
      subscriptionPlan = None, cfg_login = None\<rparr>"

definition sample_load :: GoogleLoadCodeAssistResponse where
  "sample_load =
     \<lparr>availablePromptCredits = Some 42, cloudaicompanionProject = None, load_plan = None,
      load_subscriptionPlan = None,
      currentTier = Some \<lparr>tier_id = Some (js ''free-tier''), tier_name = Some (js ''Free'')\<rparr>\<rparr>"

text \<open>A Copilot answer whose \<open>quota_snapshots\<close> is the empty object, and one without it.\<close>

definition copilot_empty_snapshots :: CopilotUserResponse where
  "copilot_empty_snapshots =
     \<lparr>login = js ''octocat'', copilot_plan = Some (js ''individual''), sku = None,
      access_type_sku = None, quota_reset_date_utc = None, quota_snapshots = Some []\<rparr>"

definition copilot_no_snapshots :: CopilotUserResponse where
  "copilot_no_snapshots =
     \<lparr>login = js ''octocat'', copilot_plan = Some (js ''individual''), sku = None,
      access_type_sku = None, quota_reset_date_utc = None, quota_snapshots = None\<rparr>"

definition sample_network :: network where
  "sample_network =
     \<lparr>copilotUser = (\<lambda>r. Inr \<lparr>status = 200, headers_get = (\<lambda>h. None),
                                json_body = Inr copilot_empty_snapshots, text_body = []\<rparr>),
      loadCodeAssist = (\<lambda>r. Inr \<lparr>status = 200, headers_get = (\<lambda>h. None),
                                   json_body = Inr sample_load, text_body = []\<rparr>),
      fetchAvailableModels = (\<lambda>r. Inr \<lparr>status = 500, headers_get = (\<lambda>h. None),
                                         json_body = Inl SyntaxError, text_body = []\<rparr>),
      codexResponses = (\<lambda>r. Inr \<lparr>status = 200, headers_get = (\<lambda>h. None),
                                   json_body = Inr (), text_body = []\<rparr>)\<rparr>"

section \<open>Reference definitions for the claims\<close>

text \<open>
  The number of adjacent-provider transitions of a row sequence, and the body of the
  table as the specification describes it: one line per row, with a border line between
  two consecutive rows whose providers differ.
\<close>

fun transitions :: "QuotaRow list \<Rightarrow> nat" where
  "transitions (a # b # rs) = (if provider a \<noteq> provider b then 1 else 0) + transitions (b # rs)"
| "transitions [a] = 0"
| "transitions [] = 0"

fun spec_body :: "jsstring \<Rightarrow> (jsstring list \<Rightarrow> jsstring) \<Rightarrow> (QuotaRow \<times> jsstring list) list \<Rightarrow>
    jsstring list" where
  "spec_body border line ((a, ca) # (b, cb) # rs) =
     line ca # (if provider a \<noteq> provider b then [border] else [])
       @ spec_body border line ((b, cb) # rs)"
| "spec_body border line [(a, ca)] = [line ca]"
| "spec_body border line [] = []"

text \<open>
  The shrink order the specification gives: Value, Reset/Note, Metric, Bar, Provider,
  Plan, and Account last; and the column it shrinks first, the first of them above its
  floor.
\<close>

definition spec_shrinkOrder :: "nat list" where
  "spec_shrinkOrder = [4, 6, 3, 5, 0, 2, 1]"

definition spec_first_shrunk :: "nat list \<Rightarrow> nat option" where
  "spec_first_shrunk widths = find (\<lambda>i. widths ! i > minColumnWidths ! i) spec_shrinkOrder"

text \<open>
  Round-robin shrinking in closed form. \<open>shrunkBy w fl n\<close> is a width after \<open>n\<close>
  decrements that stop at the floor \<open>fl\<close> (a width at or below its floor stays). After \<open>k\<close>
  complete rounds over an order and the first \<open>cur\<close> columns of one more round, the
  columns among the first \<open>cur\<close> of the order have had \<open>k + 1\<close> turns, the other
  columns of the order \<open>k\<close> turns, and the columns outside the order none.
\<close>

definition shrunkBy :: "nat \<Rightarrow> nat \<Rightarrow> nat \<Rightarrow> nat" where
  "shrunkBy w fl n = w - min (w - fl) n"

definition afterRounds :: "nat list \<Rightarrow> nat list \<Rightarrow> nat \<Rightarrow> nat \<Rightarrow> nat list" where
  "afterRounds order widths k cur =
     map (\<lambda>i. if i \<in> set order
               then shrunkBy (widths ! i) (minColumnWidths ! i)
                      (k + (if i \<in> set (take cur order) then 1 else 0))
               else widths ! i)
         [0..<length widths]"

section \<open>Properties\<close>

lemma js_round_bounds:
  assumes "0 \<le> x" and "x \<le> real_of_int w"
  shows "0 \<le> js_round x \<and> js_round x \<le> w"
proof -
  have "0 \<le> \<lfloor>x + 1 / 2\<rfloor>"
    using assms(1) by (simp add: le_floor_iff)
  moreover have "\<lfloor>x + 1 / 2\<rfloor> \<le> w"
  proof -
    have "x + 1 / 2 < real_of_int (w + 1)" using assms(2) by simp
    then have "\<lfloor>x + 1 / 2\<rfloor> < w + 1" by (simp only: floor_less_iff)
    then show ?thesis by simp
  qed
  ultimately show ?thesis by (simp add: js_round_def)
qed







lemma js_repeat_unit: "0 \<le> n \<Longrightarrow> js_repeat [c] n = Inr (replicate (nat n) c)"
  by (simp add: js_repeat_def)

lemma filled_bounds:
  assumes "0 \<le> w"
  shows "0 \<le> js_round (max 0 (min 1 f) * real_of_int w) \<and>
         js_round (max 0 (min 1 f) * real_of_int w) \<le> w"
proof (rule js_round_bounds)
  show "0 \<le> max 0 (min 1 f) * real_of_int w" using assms by simp
  have "max 0 (min 1 f) \<le> 1" by simp
  then have "max 0 (min 1 f) * real_of_int w \<le> 1 * real_of_int w"
    using assms by (intro mult_right_mono) simp_all
  then show "max 0 (min 1 f) * real_of_int w \<le> real_of_int w" by simp
qed

lemma renderProgressBar_eq:
  assumes "0 \<le> w"
  shows "renderProgressBar f w =
      Inr (replicate (nat (js_round (max 0 (min 1 f) * real_of_int w))) full_block @
           replicate (nat (w - js_round (max 0 (min 1 f) * real_of_int w))) light_shade)"
  using filled_bounds [OF assms, of f] by (simp add: renderProgressBar_def Let_def js_repeat_unit)

lemma barValue_ok:
  "\<exists>cell. barValue row = Inr cell \<and>
     (if progressRemaining row = None then cell = js ''-'' else length cell = 8)"
proof (cases "progressRemaining row")
  case None
  then show ?thesis by (simp add: barValue_def)
next
  case (Some f)
  define filled where "filled = js_round (max 0 (min 1 f) * real_of_int 8)"
  have b: "0 \<le> filled \<and> filled \<le> 8"
    unfolding filled_def using filled_bounds [of 8 f] by simp
  have r: "renderProgressBar f 8 =
      Inr (replicate (nat filled) full_block @ replicate (nat (8 - filled)) light_shade)"
    unfolding filled_def using renderProgressBar_eq [of 8 f] by simp
  have "nat filled + nat (8 - filled) = 8" using b by linarith
  then show ?thesis using Some r by (simp add: barValue_def)
qed


text \<open>
  Claim C9. For every fraction and every width \<open>0 \<le> width\<close>, \<open>renderProgressBar\<close>
  throws nothing and returns \<open>round(clamp(fraction, 0, 1) * width)\<close> full blocks followed
  by light blocks, \<open>width\<close> characters in all. So the Bar cell of a row is \<open>-\<close> when
  the row has no remaining fraction and eight characters otherwise, never more than the
  cap of the Bar column.
\<close>

theorem renderProgressBar_width:
  assumes "0 \<le> width"
  shows "(\<exists>filled. filled = js_round (max 0 (min 1 fraction) * real_of_int width) \<and>
            0 \<le> filled \<and> filled \<le> width \<and>
            renderProgressBar fraction width =
              Inr (replicate (nat filled) full_block @
                   replicate (nat (width - filled)) light_shade)) \<and>
         (\<exists>bar. renderProgressBar fraction width = Inr bar \<and> int (length bar) = width) \<and>
         (\<exists>cell. barValue row = Inr cell \<and>
            (if progressRemaining row = None then cell = js ''-'' else length cell = 8) \<and>
            length cell \<le> maxColumnWidths ! 5)"
proof -
  define filled where "filled = js_round (max 0 (min 1 fraction) * real_of_int width)"
  have b: "0 \<le> filled \<and> filled \<le> width"
    unfolding filled_def using filled_bounds [OF assms] by simp
  have r: "renderProgressBar fraction width =
      Inr (replicate (nat filled) full_block @ replicate (nat (width - filled)) light_shade)"
    unfolding filled_def using renderProgressBar_eq [OF assms] by simp
  have l: "int (length (replicate (nat filled) full_block @
      replicate (nat (width - filled)) light_shade)) = width"
    using b by simp
  obtain cell where c: "barValue row = Inr cell"
      "if progressRemaining row = None then cell = js ''-'' else length cell = 8"
    using barValue_ok [of row] by blast
  have "length cell \<le> maxColumnWidths ! 5"
    using c(2) by (simp add: maxColumnWidths_def js_def split: if_splits)
  then show ?thesis using b r l c filled_def by blast
qed

text \<open>C9 at the fraction 0.3: two full blocks, six light ones.\<close>

theorem renderProgressBar_width_witness:
  "(0::int) \<le> 8 \<and>
   renderProgressBar (3 / 10) 8 =
     Inr (replicate 2 full_block @ replicate 6 light_shade) \<and>
   barValue \<lparr>provider = js ''p'', account = js ''a'', plan = js ''free'', metric = js ''m'',
     cell_value = js ''30.0%'', reset = js ''-'', progressRemaining = Some (3 / 10)\<rparr> =
     Inr (replicate 2 full_block @ replicate 6 light_shade)"
  using renderProgressBar_width [of 8 "3 / 10"]
  by (simp add: js_round_def barValue_def)

subsection \<open>The shrink loop\<close>

lemma fold_add_sum: "fold (\<lambda>w sum. sum + w) ws (a::nat) = a + sum_list ws"
  by (induction ws arbitrary: a) simp_all

lemma totalWidth_sum: "totalWidth ws = sum_list ws + length ws * 3 + 1"
  by (simp add: totalWidth_def fold_add_sum)

lemma sum_list_dec:
  fixes ws :: "nat list"
  assumes "i < length ws" and "0 < ws ! i"
  shows "Suc (sum_list (ws[i := ws ! i - 1])) = sum_list ws"
  using assms
proof (induction ws arbitrary: i)
  case Nil
  then show ?case by simp
next
  case (Cons a ws)
  then show ?case by (cases i) auto
qed

lemma totalWidth_dec:
  assumes "i < length ws" and "0 < ws ! i"
  shows "Suc (totalWidth (ws[i := ws ! i - 1])) = totalWidth ws"
  using sum_list_dec [OF assms] by (simp add: totalWidth_sum)

lemma shrinkPass_skip:
  "\<not> ws ! idx > minColumnWidths ! idx \<Longrightarrow>
   shrinkPass mw (idx # rest) (ws, r) = shrinkPass mw rest (ws, r)"
  by simp

lemma shrinkPass_break:
  "ws ! idx > minColumnWidths ! idx \<Longrightarrow> int (totalWidth (ws[idx := ws ! idx - 1])) \<le> mw \<Longrightarrow>
   shrinkPass mw (idx # rest) (ws, r) = (ws[idx := ws ! idx - 1], True)"
  by (simp add: Let_def)

lemma shrinkPass_go:
  "ws ! idx > minColumnWidths ! idx \<Longrightarrow> \<not> int (totalWidth (ws[idx := ws ! idx - 1])) \<le> mw \<Longrightarrow>
   shrinkPass mw (idx # rest) (ws, r) = shrinkPass mw rest (ws[idx := ws ! idx - 1], True)"
  by (simp add: Let_def)

lemma shrinkPass_length: "length (fst (shrinkPass mw ord (ws, r))) = length ws"
  by (induction mw ord "(ws, r)" arbitrary: ws r rule: shrinkPass.induct)
     (simp_all add: Let_def)

text \<open>A pass never adds width; it reports a reduction exactly when the sum went down.\<close>

lemma shrinkPass_sum:
  assumes "\<forall>i \<in> set ord. i < length ws"
  shows "totalWidth (fst (shrinkPass mw ord (ws, r))) \<le> totalWidth ws \<and>
         (snd (shrinkPass mw ord (ws, r)) \<longleftrightarrow>
            r \<or> totalWidth (fst (shrinkPass mw ord (ws, r))) < totalWidth ws) \<and>
         (\<not> snd (shrinkPass mw ord (ws, r)) \<longrightarrow> fst (shrinkPass mw ord (ws, r)) = ws)"
  using assms
proof (induction mw ord "(ws, r)" arbitrary: ws r rule: shrinkPass.induct)
  case (1 maxWidth widths reduced)
  then show ?case by simp
next
  case (2 maxWidth idx rest widths reduced)
  show ?case
  proof (cases "widths ! idx > minColumnWidths ! idx")
    case False
    then show ?thesis using 2(2) [OF False] 2(3) by auto
  next
    case True
    define ws' where "ws' = widths[idx := widths ! idx - 1]"
    have dec: "Suc (totalWidth ws') = totalWidth widths"
      unfolding ws'_def using True 2(3) by (intro totalWidth_dec) auto
    show ?thesis
    proof (cases "int (totalWidth ws') \<le> maxWidth")
      case True
      have "shrinkPass maxWidth (idx # rest) (widths, reduced) = (ws', True)"
        unfolding ws'_def
        using \<open>widths ! idx > minColumnWidths ! idx\<close> True
        by (intro shrinkPass_break) (simp_all add: ws'_def)
      then show ?thesis using dec by simp
    next
      case False
      have eq: "shrinkPass maxWidth (idx # rest) (widths, reduced) =
          shrinkPass maxWidth rest (ws', True)"
        unfolding ws'_def
        using \<open>widths ! idx > minColumnWidths ! idx\<close> False
        by (intro shrinkPass_go) (simp_all add: ws'_def)
      have "\<forall>i \<in> set rest. i < length ws'" using 2(3) by (simp add: ws'_def)
      from 2(1) [OF \<open>widths ! idx > minColumnWidths ! idx\<close> ws'_def False this]
      show ?thesis unfolding eq using dec by auto
    qed
  qed
qed

lemma shrinkPass_stuck:
  "\<not> snd (shrinkPass mw ord (ws, r)) \<Longrightarrow>
   \<not> r \<and> (\<forall>i \<in> set ord. ws ! i \<le> minColumnWidths ! i)"
proof (induction mw ord "(ws, r)" arbitrary: ws r rule: shrinkPass.induct)
  case (1 maxWidth widths reduced)
  then show ?case by simp
next
  case (2 maxWidth idx rest widths reduced)
  show ?case
  proof (cases "widths ! idx > minColumnWidths ! idx")
    case False
    then show ?thesis using 2(2) [OF False] 2(3) by auto
  next
    case True
    show ?thesis
    proof (cases "int (totalWidth (widths[idx := widths ! idx - 1])) \<le> maxWidth")
      case True
      then show ?thesis
        using 2(3) shrinkPass_break [OF \<open>widths ! idx > minColumnWidths ! idx\<close> True] by simp
    next
      case False
      have "\<not> snd (shrinkPass maxWidth rest (widths[idx := widths ! idx - 1], True))"
        using 2(3) shrinkPass_go [OF True False] by simp
      from 2(1) [OF True refl False this] show ?thesis by simp
    qed
  qed
qed

text \<open>A pass stops at the budget: it never takes more than is asked for.\<close>

lemma shrinkPass_no_overshoot:
  assumes "\<forall>i \<in> set ord. i < length ws" and "mw < int (totalWidth ws)"
  shows "mw \<le> int (totalWidth (fst (shrinkPass mw ord (ws, r))))"
  using assms
proof (induction mw ord "(ws, r)" arbitrary: ws r rule: shrinkPass.induct)
  case (1 maxWidth widths reduced)
  then show ?case by simp
next
  case (2 maxWidth idx rest widths reduced)
  show ?case
  proof (cases "widths ! idx > minColumnWidths ! idx")
    case False
    then show ?thesis using 2(2) [OF False] 2(3,4) by auto
  next
    case True
    define ws' where "ws' = widths[idx := widths ! idx - 1]"
    have dec: "Suc (totalWidth ws') = totalWidth widths"
      unfolding ws'_def using True 2(3) by (intro totalWidth_dec) auto
    show ?thesis
    proof (cases "int (totalWidth ws') \<le> maxWidth")
      case True
      have "shrinkPass maxWidth (idx # rest) (widths, reduced) = (ws', True)"
        unfolding ws'_def using \<open>widths ! idx > minColumnWidths ! idx\<close> True
        by (intro shrinkPass_break) (simp_all add: ws'_def)
      then show ?thesis using dec 2(4) by simp
    next
      case False
      have eq: "shrinkPass maxWidth (idx # rest) (widths, reduced) =
          shrinkPass maxWidth rest (ws', True)"
        unfolding ws'_def using \<open>widths ! idx > minColumnWidths ! idx\<close> False
        by (intro shrinkPass_go) (simp_all add: ws'_def)
      have "\<forall>i \<in> set rest. i < length ws'" using 2(3) by (simp add: ws'_def)
      moreover have "maxWidth < int (totalWidth ws')" using False by simp
      ultimately show ?thesis
        unfolding eq using 2(1) [OF \<open>widths ! idx > minColumnWidths ! idx\<close> ws'_def False] by simp
    qed
  qed
qed

text \<open>Column by column: a pass lowers a width by at most what is above its floor, and
  touches only the columns of the order.\<close>

lemma shrinkPass_nth:
  assumes "i < length ws"
  shows "fst (shrinkPass mw ord (ws, r)) ! i \<le> ws ! i \<and>
         min (ws ! i) (minColumnWidths ! i) \<le> fst (shrinkPass mw ord (ws, r)) ! i \<and>
         (i \<notin> set ord \<longrightarrow> fst (shrinkPass mw ord (ws, r)) ! i = ws ! i)"
  using assms
proof (induction mw ord "(ws, r)" arbitrary: ws r rule: shrinkPass.induct)
  case (1 maxWidth widths reduced)
  then show ?case by simp
next
  case (2 maxWidth idx rest widths reduced)
  show ?case
  proof (cases "widths ! idx > minColumnWidths ! idx")
    case False
    then show ?thesis using 2(2) [OF False] 2(3) by auto
  next
    case True
    define ws' where "ws' = widths[idx := widths ! idx - 1]"
    have step: "ws' ! i \<le> widths ! i \<and> min (widths ! i) (minColumnWidths ! i) \<le> ws' ! i \<and>
        (i \<noteq> idx \<longrightarrow> ws' ! i = widths ! i) \<and>
        min (ws' ! i) (minColumnWidths ! i) = min (widths ! i) (minColumnWidths ! i)"
      using True 2(3) by (cases "i = idx") (auto simp: ws'_def)
    show ?thesis
    proof (cases "int (totalWidth ws') \<le> maxWidth")
      case True
      have "shrinkPass maxWidth (idx # rest) (widths, reduced) = (ws', True)"
        unfolding ws'_def using \<open>widths ! idx > minColumnWidths ! idx\<close> True
        by (intro shrinkPass_break) (simp_all add: ws'_def)
      then show ?thesis using step by simp
    next
      case False
      have eq: "shrinkPass maxWidth (idx # rest) (widths, reduced) =
          shrinkPass maxWidth rest (ws', True)"
        unfolding ws'_def using \<open>widths ! idx > minColumnWidths ! idx\<close> False
        by (intro shrinkPass_go) (simp_all add: ws'_def)
      have "i < length ws'" using 2(3) by (simp add: ws'_def)
      from 2(1) [OF \<open>widths ! idx > minColumnWidths ! idx\<close> ws'_def False this]
      show ?thesis unfolding eq using step by auto
    qed
  qed
qed

text \<open>The loop ends on every seven-column width list, with these facts about its result.\<close>

lemma shrinkLoop_result:
  assumes "length ws = 7"
  shows "\<exists>ws'. shrinkLoop mw ws = Some ws' \<and> length ws' = 7 \<and>
           (\<forall>i < 7. ws' ! i \<le> ws ! i \<and> min (ws ! i) (minColumnWidths ! i) \<le> ws' ! i) \<and>
           ws' ! 5 = ws ! 5 \<and>
           (int (totalWidth ws') \<le> mw \<or> (\<forall>i \<in> set shrinkOrder. ws' ! i \<le> minColumnWidths ! i)) \<and>
           (mw < int (totalWidth ws) \<longrightarrow> mw \<le> int (totalWidth ws'))"
  using assms
proof (induction "totalWidth ws" arbitrary: ws rule: less_induct)
  case less
  have inb: "\<forall>i \<in> set shrinkOrder. i < length ws"
    using less.prems by (simp add: shrinkOrder_def)
  show ?case
  proof (cases "int (totalWidth ws) > mw")
    case False
    then have "shrinkLoop mw ws = Some ws" by (subst shrinkLoop.simps) simp
    then show ?thesis using False less.prems by simp
  next
    case True
    define p where "p = shrinkPass mw shrinkOrder (ws, False)"
    have len: "length (fst p) = 7"
      using less.prems by (simp add: p_def shrinkPass_length)
    have sum: "totalWidth (fst p) \<le> totalWidth ws \<and>
        (snd p \<longleftrightarrow> totalWidth (fst p) < totalWidth ws) \<and> (\<not> snd p \<longrightarrow> fst p = ws)"
      using shrinkPass_sum [OF inb, of mw False] by (simp add: p_def)
    have nth: "fst p ! i \<le> ws ! i \<and> min (ws ! i) (minColumnWidths ! i) \<le> fst p ! i \<and>
        (i \<notin> set shrinkOrder \<longrightarrow> fst p ! i = ws ! i)" if "i < 7" for i
      using shrinkPass_nth [of i ws mw shrinkOrder False] that less.prems by (simp add: p_def)
    have over: "mw \<le> int (totalWidth (fst p))"
      using shrinkPass_no_overshoot [OF inb True] by (simp add: p_def)
    show ?thesis
    proof (cases "snd p")
      case False
      have "shrinkLoop mw ws = Some (fst p)"
        using True False by (subst shrinkLoop.simps) (simp add: p_def Let_def)
      moreover have "fst p = ws" using sum False by simp
      moreover have "\<forall>i \<in> set shrinkOrder. ws ! i \<le> minColumnWidths ! i"
        using shrinkPass_stuck [of mw shrinkOrder ws False] False by (simp add: p_def)
      ultimately show ?thesis using less.prems True by simp
    next
      case snd_p: True
      have eq: "shrinkLoop mw ws = shrinkLoop mw (fst p)"
        using True snd_p by (subst shrinkLoop.simps) (simp add: p_def Let_def)
      have "totalWidth (fst p) < totalWidth ws" using sum snd_p by simp
      from less.hyps [OF this len] obtain ws' where r:
        "shrinkLoop mw (fst p) = Some ws'" "length ws' = 7"
        "\<forall>i < 7. ws' ! i \<le> fst p ! i \<and> min (fst p ! i) (minColumnWidths ! i) \<le> ws' ! i"
        "ws' ! 5 = fst p ! 5"
        "int (totalWidth ws') \<le> mw \<or> (\<forall>i \<in> set shrinkOrder. ws' ! i \<le> minColumnWidths ! i)"
        "mw < int (totalWidth (fst p)) \<longrightarrow> mw \<le> int (totalWidth ws')"
        by blast
      have a: "\<forall>i < 7. ws' ! i \<le> ws ! i \<and> min (ws ! i) (minColumnWidths ! i) \<le> ws' ! i"
      proof (intro allI impI)
        fix i :: nat
        assume "i < 7"
        then show "ws' ! i \<le> ws ! i \<and> min (ws ! i) (minColumnWidths ! i) \<le> ws' ! i"
          using r(3) nth [of i] by (auto simp: min_def split: if_splits)
      qed
      have b: "ws' ! 5 = ws ! 5"
        using r(4) nth [of 5] by (simp add: shrinkOrder_def)
      have c: "mw \<le> int (totalWidth ws')"
      proof (cases "mw < int (totalWidth (fst p))")
        case True
        then show ?thesis using r(6) by simp
      next
        case False
        then have "shrinkLoop mw (fst p) = Some (fst p)" by (subst shrinkLoop.simps) simp
        then show ?thesis using r(1) over by simp
      qed
      show ?thesis unfolding eq using r(1,2,5) a b c by simp
    qed
  qed
qed

lemma shrinkLoop_done: "\<not> int (totalWidth ws) > mw \<Longrightarrow> shrinkLoop mw ws = Some ws"
  by (subst shrinkLoop.simps) simp

lemma shrinkLoop_again:
  "int (totalWidth ws) > mw \<Longrightarrow> shrinkPass mw shrinkOrder (ws, False) = (ws', True) \<Longrightarrow>
   shrinkLoop mw ws = shrinkLoop mw ws'"
  by (subst shrinkLoop.simps) simp

lemma shrinkLoop_stuck:
  "int (totalWidth ws) > mw \<Longrightarrow> shrinkPass mw shrinkOrder (ws, False) = (ws', False) \<Longrightarrow>
   shrinkLoop mw ws = Some ws'"
  by (subst shrinkLoop.simps) simp


lemma row_cells_ok: "\<exists>cs. row_cells r = Inr cs \<and> length cs = 7"
  using barValue_ok [of r] by (auto simp: row_cells_def)

lemma all_cells_ok: "\<exists>cells. all_cells rows = Inr cells \<and> length cells = length rows"
proof (induction rows)
  case Nil
  then show ?case by simp
next
  case (Cons r rows)
  then show ?case using row_cells_ok [of r] by auto
qed

lemma length_headers: "length headers = 7"
  by (simp add: headers_def)

lemma naturalWidths_length: "length (naturalWidths t cells) = 7"
  by (simp add: naturalWidths_def length_headers)

lemma naturalWidths_cap:
  assumes "i < 7"
  shows "naturalWidths t cells ! i \<le> maxColumnWidths ! i"
proof -
  have "i < length [0..<length headers]" using assms by (simp add: length_headers)
  then show ?thesis by (simp add: naturalWidths_def Let_def length_headers)
qed

lemma shrinkWidths_result:
  assumes "length ws = 7"
  shows "\<exists>ws'. shrinkWidths maxWidth ws = Some ws' \<and> length ws' = 7 \<and>
           (\<forall>i < 7. ws' ! i \<le> ws ! i \<and> min (ws ! i) (minColumnWidths ! i) \<le> ws' ! i) \<and>
           ws' ! 5 = ws ! 5"
proof (cases "\<exists>w. maxWidth = Some w \<and> w \<noteq> 0 \<and> int (totalWidth ws) > w")
  case True
  then obtain w where w: "maxWidth = Some w" "w \<noteq> 0" "int (totalWidth ws) > w" by blast
  then have "shrinkWidths maxWidth ws = shrinkLoop w ws" by (simp add: shrinkWidths_def)
  then show ?thesis using shrinkLoop_result [OF assms, of w] by auto
next
  case False
  then have "shrinkWidths maxWidth ws = Some ws"
    by (auto simp: shrinkWidths_def split: option.splits)
  then show ?thesis using assms by simp
qed

lemma renderQuotaTable_returns:
  "\<exists>cells widths. all_cells rows = Inr cells \<and> length cells = length rows \<and>
     shrinkWidths maxWidth (naturalWidths t cells) = Some widths \<and> length widths = 7 \<and>
     renderQuotaTable t th rows maxWidth =
       Some (Inr (tableLines t th maxWidth widths (zip rows cells)))"
proof -
  obtain cells where c: "all_cells rows = Inr cells" "length cells = length rows"
    using all_cells_ok by blast
  obtain widths where w: "shrinkWidths maxWidth (naturalWidths t cells) = Some widths"
      "length widths = 7"
    using shrinkWidths_result [OF naturalWidths_length, of maxWidth t cells] by blast
  show ?thesis using c w by (simp add: renderQuotaTable_def)
qed

lemma shrinkPass_round:
  assumes len: "length ws = 7"
  shows "(snd (shrinkPass mw shrinkOrder (ws, False)) \<longrightarrow>
            sum_list (fst (shrinkPass mw shrinkOrder (ws, False))) < sum_list ws) \<and>
         (\<not> snd (shrinkPass mw shrinkOrder (ws, False)) \<longrightarrow>
            fst (shrinkPass mw shrinkOrder (ws, False)) = ws) \<and>
         (\<forall>i < 7. fst (shrinkPass mw shrinkOrder (ws, False)) ! i < ws ! i \<longrightarrow>
            minColumnWidths ! i \<le> fst (shrinkPass mw shrinkOrder (ws, False)) ! i)"
proof -
  have inb: "\<forall>i \<in> set shrinkOrder. i < length ws" using len by (simp add: shrinkOrder_def)
  define p where "p = shrinkPass mw shrinkOrder (ws, False)"
  have plen: "length (fst p) = 7" using len by (simp add: p_def shrinkPass_length)
  have sum: "(snd p \<longleftrightarrow> totalWidth (fst p) < totalWidth ws) \<and> (\<not> snd p \<longrightarrow> fst p = ws)"
    using shrinkPass_sum [OF inb, of mw False] by (simp add: p_def)
  have a: "snd p \<longrightarrow> sum_list (fst p) < sum_list ws"
    using sum len plen by (simp add: totalWidth_sum)
  have b: "\<not> snd p \<longrightarrow> fst p = ws" using sum by blast
  have c: "\<forall>i < 7. fst p ! i < ws ! i \<longrightarrow> minColumnWidths ! i \<le> fst p ! i"
  proof (intro allI impI)
    fix i :: nat
    assume "i < 7" and lt: "fst p ! i < ws ! i"
    then have "min (ws ! i) (minColumnWidths ! i) \<le> fst p ! i"
      using shrinkPass_nth [of i ws mw shrinkOrder False] len by (simp add: p_def)
    then show "minColumnWidths ! i \<le> fst p ! i"
      using lt by (simp add: min_def split: if_splits)
  qed
  from a b c show ?thesis by (simp only: p_def)
qed

text \<open>
  Claim C10. The table layout returns for every row set and every target width. On seven
  columns the shrink loop ends, and one run of its body either lowers the sum of the
  widths or makes no change and reports that nothing was reduced, which ends the loop;
  a column that was lowered is still at or above its floor.
\<close>

theorem shrink_loop_terminates:
  "(\<exists>lines. renderQuotaTable t th rows maxWidth = Some (Inr lines)) \<and>
   (length ws = 7 \<longrightarrow>
      (\<exists>ws'. shrinkLoop mw ws = Some ws') \<and>
      (snd (shrinkPass mw shrinkOrder (ws, False)) \<longrightarrow>
         sum_list (fst (shrinkPass mw shrinkOrder (ws, False))) < sum_list ws) \<and>
      (\<not> snd (shrinkPass mw shrinkOrder (ws, False)) \<longrightarrow>
         fst (shrinkPass mw shrinkOrder (ws, False)) = ws) \<and>
      (\<forall>i < 7. fst (shrinkPass mw shrinkOrder (ws, False)) ! i < ws ! i \<longrightarrow>
         minColumnWidths ! i \<le> fst (shrinkPass mw shrinkOrder (ws, False)) ! i))"
proof -
  have "\<exists>lines. renderQuotaTable t th rows maxWidth = Some (Inr lines)"
    using renderQuotaTable_returns [of rows maxWidth t th] by blast
  moreover have "\<exists>ws'. shrinkLoop mw ws = Some ws'" if "length ws = 7"
    using shrinkLoop_result [OF that, of mw] by blast
  ultimately show ?thesis using shrinkPass_round [of ws mw] by blast
qed

text \<open>C10 at the widths 8, 18, 8, 8, 14, 8, 10 and the target width 90.\<close>

theorem shrink_loop_terminates_witness:
  "length [8, 18, 8, 8, 14, 8, 10 :: nat] = 7 \<and>
   (\<exists>ws'. shrinkLoop 90 [8, 18, 8, 8, 14, 8, 10] = Some ws') \<and>
   (\<exists>lines. renderQuotaTable plain_tui plain_theme [] (Some 90) = Some (Inr lines))"
  using shrink_loop_terminates [of plain_tui plain_theme "[]" "Some 90"
      "[8, 18, 8, 8, 14, 8, 10]" 90]
  by simp


subsection \<open>Line widths\<close>

lemma totalWidth_floors: "totalWidth minColumnWidths = 80"
  by (simp add: totalWidth_def minColumnWidths_def)

lemma seven_list:
  assumes "length ws = 7"
  shows "ws = [ws ! 0, ws ! 1, ws ! 2, ws ! 3, ws ! 4, ws ! 5, ws ! 6]"
proof -
  obtain a b c d e f g where "ws = [a, b, c, d, e, f, g]"
    using assms by (auto simp: eval_nat_numeral length_Suc_conv)
  then show ?thesis by simp
qed

lemma totalWidth_at_floors:
  assumes "length ws = 7" and "\<forall>i < 7. ws ! i \<le> minColumnWidths ! i"
  shows "totalWidth ws \<le> 80"
proof -
  have f: "ws ! i \<le> minColumnWidths ! i" if "i < 7" for i
    using assms(2) that by blast
  have "ws ! 0 \<le> 8" "ws ! 1 \<le> 10" "ws ! 2 \<le> 8" "ws ! 3 \<le> 8" "ws ! 4 \<le> 8" "ws ! 5 \<le> 8"
    "ws ! 6 \<le> 8"
    using f [of 0] f [of 1] f [of 2] f [of 3] f [of 4] f [of 5] f [of 6]
    by (simp_all add: minColumnWidths_def)
  moreover have "totalWidth ws = ws ! 0 + ws ! 1 + ws ! 2 + ws ! 3 + ws ! 4 + ws ! 5 + ws ! 6 + 22"
    by (subst seven_list [OF assms(1)]) (simp add: totalWidth_def)
  ultimately show ?thesis by linarith
qed

text \<open>With a budget of at least the floors plus the overhead, the shrunk widths fit it.\<close>

lemma shrinkWidths_budget:
  assumes "length ws = 7" and "ws ! 5 \<le> 8" and "int (totalWidth minColumnWidths) \<le> mw"
  shows "\<exists>ws'. shrinkWidths (Some mw) ws = Some ws' \<and> length ws' = 7 \<and>
           int (totalWidth ws') \<le> mw"
proof (cases "int (totalWidth ws) > mw")
  case False
  then have "shrinkWidths (Some mw) ws = Some ws" by (simp add: shrinkWidths_def)
  then show ?thesis using False assms(1) by simp
next
  case True
  have "mw \<noteq> 0" using assms(3) by (simp add: totalWidth_floors)
  then have eq: "shrinkWidths (Some mw) ws = shrinkLoop mw ws"
    using True by (simp add: shrinkWidths_def)
  obtain ws' where r: "shrinkLoop mw ws = Some ws'" "length ws' = 7" "ws' ! 5 = ws ! 5"
      "int (totalWidth ws') \<le> mw \<or> (\<forall>i \<in> set shrinkOrder. ws' ! i \<le> minColumnWidths ! i)"
    using shrinkLoop_result [OF assms(1), of mw] by blast
  have "int (totalWidth ws') \<le> mw"
  proof (rule ccontr)
    assume over: "\<not> int (totalWidth ws') \<le> mw"
    then have fl: "\<forall>i \<in> set shrinkOrder. ws' ! i \<le> minColumnWidths ! i" using r(4) by blast
    have "\<forall>i < 7. ws' ! i \<le> minColumnWidths ! i"
    proof (intro allI impI)
      fix i :: nat
      assume "i < 7"
      then have "i \<in> set shrinkOrder \<or> i = 5"
        by (simp add: shrinkOrder_def) arith
      then show "ws' ! i \<le> minColumnWidths ! i"
        using fl r(3) assms(2) by (auto simp: minColumnWidths_def)
    qed
    then have "totalWidth ws' \<le> 80" using totalWidth_at_floors [OF r(2)] by blast
    then show False using over assms(3) by (simp add: totalWidth_floors)
  qed
  then show ?thesis using eq r(1,2) by simp
qed

lemma naturalWidths_bar: "naturalWidths t cells ! 5 \<le> 8"
  using naturalWidths_cap [of 5 t cells] by (simp add: maxColumnWidths_def)

lemma clip_width:
  assumes "tui_ok t" and "0 < mw"
  shows "int (visibleWidth t (clip t (Some mw) s)) \<le> mw"
  using assms by (simp add: clip_def tui_ok_def)

lemma borderLine_width:
  assumes "tui_ok t" and "theme_ok t th" and "0 < mw"
  shows "int (visibleWidth t (borderLine t th (Some mw) ws)) \<le> mw"
  using clip_width [OF assms(1,3)] assms(2) by (simp add: borderLine_def theme_ok_def)

lemma renderRow_width:
  assumes "tui_ok t" and "0 < mw"
  shows "int (visibleWidth t (renderRow t (Some mw) ws cols)) \<le> mw"
  using clip_width [OF assms] by (simp add: renderRow_def Let_def)

lemma rowLines_width:
  assumes "tui_ok t" and "theme_ok t th" and "0 < mw"
  shows "\<forall>l \<in> set (rowLines t th (Some mw) ws lastProvider xs). int (visibleWidth t l) \<le> mw"
proof (induction xs arbitrary: lastProvider)
  case Nil
  then show ?case by simp
next
  case (Cons x xs)
  obtain row cells where x: "x = (row, cells)" by (cases x)
  show ?case
    using Cons borderLine_width [OF assms] renderRow_width [OF assms(1,3)]
    by (auto simp: x)
qed

lemma title_width:
  assumes "tui_ok t" and "theme_ok t th"
  shows "visibleWidth t (fg th (js ''accent'') (bold th (js ''Provider Quotas''))) = 15"
proof -
  have "visibleWidth t (js ''Provider Quotas'') = length (js ''Provider Quotas'')"
    using assms(1) unfolding tui_ok_def by (simp add: js_def)
  then show ?thesis using assms(2) by (simp add: theme_ok_def js_def)
qed

lemma tableLines_width:
  assumes "tui_ok t" and "theme_ok t th" and "15 \<le> mw"
  shows "\<forall>l \<in> set (tableLines t th (Some mw) ws xs). int (visibleWidth t l) \<le> mw"
proof -
  have pos: "0 < mw" using assms(3) by simp
  have hdr: "int (visibleWidth t (fg th (js ''accent'') (renderRow t (Some mw) ws headers))) \<le> mw"
    using renderRow_width [OF assms(1) pos] assms(2) by (simp add: theme_ok_def)
  show ?thesis
    using title_width [OF assms(1,2)] borderLine_width [OF assms(1,2) pos] hdr
      rowLines_width [OF assms(1,2) pos] assms(3)
    by (simp add: tableLines_def)
qed

text \<open>
  Claim C2. The column floors and the fixed overhead add up to 58 + 22 = 80. For every
  row set and every target width of at least that, the layout returns, every line it
  returns has a visible width of at most the target width, and the shrunk column widths
  with their overhead already fit the target width. The terminal primitives are taken as
  their contracts \<open>tui_ok\<close> and \<open>theme_ok\<close> state them.
\<close>

theorem table_lines_fit_target:
  assumes "tui_ok t" and "theme_ok t th" and "int (totalWidth minColumnWidths) \<le> mw"
  shows "totalWidth minColumnWidths = 58 + 22 \<and>
         (\<exists>lines cells widths.
            renderQuotaTable t th rows (Some mw) = Some (Inr lines) \<and>
            (\<forall>l \<in> set lines. int (visibleWidth t l) \<le> mw) \<and>
            all_cells rows = Inr cells \<and>
            shrinkWidths (Some mw) (naturalWidths t cells) = Some widths \<and>
            int (totalWidth widths) \<le> mw)"
proof -
  obtain cells where c: "all_cells rows = Inr cells" using all_cells_ok by blast
  obtain widths where w: "shrinkWidths (Some mw) (naturalWidths t cells) = Some widths"
      "int (totalWidth widths) \<le> mw"
    using shrinkWidths_budget [OF naturalWidths_length [of t cells] naturalWidths_bar [of t cells]
        assms(3)]
    by blast
  have r: "renderQuotaTable t th rows (Some mw) =
      Some (Inr (tableLines t th (Some mw) widths (zip rows cells)))"
    using c w(1) by (simp add: renderQuotaTable_def)
  have "15 \<le> mw" using assms(3) by (simp add: totalWidth_floors)
  then have "\<forall>l \<in> set (tableLines t th (Some mw) widths (zip rows cells)).
      int (visibleWidth t l) \<le> mw"
    using tableLines_width [OF assms(1,2)] by blast
  then show ?thesis using r c w by (simp add: totalWidth_floors)
qed

lemma plain_ok: "tui_ok plain_tui \<and> theme_ok plain_tui plain_theme"
  by (simp add: tui_ok_def theme_ok_def plain_tui_def plain_theme_def)

text \<open>C2 on a plain terminal, at the target width 80, for one row.\<close>

theorem table_lines_fit_target_witness:
  "tui_ok plain_tui \<and> theme_ok plain_tui plain_theme \<and>
   int (totalWidth minColumnWidths) \<le> 80 \<and>
   (\<exists>lines.
      renderQuotaTable plain_tui plain_theme
        [\<lparr>provider = js ''github-copilot'', account = js ''octocat@example.com'',
          plan = js ''individual'', metric = js ''premium_interactions'',
          cell_value = js ''30.0% (3/10)'', reset = js ''-'', progressRemaining = None\<rparr>]
        (Some 80) = Some (Inr lines) \<and>
      list_all (\<lambda>l. int (visibleWidth plain_tui l) \<le> 80) lines)"
proof -
  have ok: "tui_ok plain_tui" "theme_ok plain_tui plain_theme" using plain_ok by simp_all
  have b: "int (totalWidth minColumnWidths) \<le> 80" by (simp add: totalWidth_floors)
  show ?thesis
    using table_lines_fit_target [OF ok b] ok b by (auto simp: list_all_iff)
qed

subsection \<open>The body of the table\<close>

lemma rowLines_spec_body:
  "rowLines t th mw ws lp xs =
     (case xs of
        [] \<Rightarrow> []
      | (a, ca) # rest \<Rightarrow>
          (if lp \<noteq> None \<and> Some (provider a) \<noteq> lp then [borderLine t th mw ws] else [])
          @ spec_body (borderLine t th mw ws) (renderRow t mw ws) xs)"
proof (induction xs arbitrary: lp)
  case Nil
  then show ?case by simp
next
  case (Cons x xs)
  obtain a ca where x: "x = (a, ca)" by (cases x)
  show ?case
  proof (cases xs)
    case Nil
    then show ?thesis by (simp add: x)
  next
    case (Cons y ys)
    obtain b cb where y: "y = (b, cb)" by (cases y)
    show ?thesis
      using Cons.IH [of "Some (provider a)"] by (auto simp: x y Cons)
  qed
qed

lemma rowLines_None:
  "rowLines t th mw ws None xs = spec_body (borderLine t th mw ws) (renderRow t mw ws) xs"
  by (subst rowLines_spec_body) (simp split: list.splits)

lemma length_spec_body:
  "length cells = length rows \<Longrightarrow>
   length (spec_body b l (zip rows cells)) = length rows + transitions rows"
proof (induction rows arbitrary: cells rule: transitions.induct)
  case (1 a b rs)
  then obtain ca cb cs where c: "cells = ca # cb # cs"
    by (cases cells; cases "tl cells") auto
  then have "length (cb # cs) = length (b # rs)" using 1(2) by simp
  from 1(1) [OF this] show ?case by (simp add: c)
next
  case (2 a)
  then obtain c where "cells = [c]" by (cases cells) auto
  then show ?case by simp
next
  case 3
  then show ?case by simp
qed

text \<open>
  Claim C5. For every row set the layout returns the title, a border, the header row and
  a border, then the body, then a closing border. The body is the specification's: one
  data line per row, in order, with exactly one border line between two consecutive rows
  whose providers differ; it has as many lines as there are rows plus adjacent-provider
  transitions.
\<close>

theorem table_body_lines:
  "\<exists>cells widths.
     all_cells rows = Inr cells \<and> length cells = length rows \<and>
     shrinkWidths maxWidth (naturalWidths t cells) = Some widths \<and>
     renderQuotaTable t th rows maxWidth =
       Some (Inr ([fg th (js ''accent'') (bold th (js ''Provider Quotas'')),
                   borderLine t th maxWidth widths,
                   fg th (js ''accent'') (renderRow t maxWidth widths headers),
                   borderLine t th maxWidth widths]
                  @ spec_body (borderLine t th maxWidth widths) (renderRow t maxWidth widths)
                      (zip rows cells)
                  @ [borderLine t th maxWidth widths])) \<and>
     length (spec_body (borderLine t th maxWidth widths) (renderRow t maxWidth widths)
               (zip rows cells)) = length rows + transitions rows"
proof -
  obtain cells widths where r: "all_cells rows = Inr cells" "length cells = length rows"
      "shrinkWidths maxWidth (naturalWidths t cells) = Some widths"
      "renderQuotaTable t th rows maxWidth =
         Some (Inr (tableLines t th maxWidth widths (zip rows cells)))"
    using renderQuotaTable_returns [of rows maxWidth t th] by blast
  show ?thesis
    using r length_spec_body [OF r(2)] by (simp add: tableLines_def rowLines_None)
qed

text \<open>C5 on three rows of the providers a, a, b: three data lines, one group border.\<close>

theorem table_body_lines_witness:
  "\<exists>lines.
     renderQuotaTable plain_tui plain_theme
       [\<lparr>provider = js ''a'', account = js ''x'', plan = js ''p'', metric = js ''m1'',
          cell_value = js ''1'', reset = js ''-'', progressRemaining = None\<rparr>,
        \<lparr>provider = js ''a'', account = js ''x'', plan = js ''p'', metric = js ''m2'',
          cell_value = js ''2'', reset = js ''-'', progressRemaining = None\<rparr>,
        \<lparr>provider = js ''b'', account = js ''y'', plan = js ''q'', metric = js ''m3'',
          cell_value = js ''3'', reset = js ''-'', progressRemaining = None\<rparr>]
       None = Some (Inr lines) \<and>
     length lines = 4 + (3 + 1) + 1"
  using table_body_lines [of
       "[\<lparr>provider = js ''a'', account = js ''x'', plan = js ''p'', metric = js ''m1'',
          cell_value = js ''1'', reset = js ''-'', progressRemaining = None\<rparr>,
        \<lparr>provider = js ''a'', account = js ''x'', plan = js ''p'', metric = js ''m2'',
          cell_value = js ''2'', reset = js ''-'', progressRemaining = None\<rparr>,
        \<lparr>provider = js ''b'', account = js ''y'', plan = js ''q'', metric = js ''m3'',
          cell_value = js ''3'', reset = js ''-'', progressRemaining = None\<rparr>]"
       None plain_tui plain_theme]
  by (auto simp: js_def)

subsection \<open>The order of shrinking\<close>

lemma shrunkBy_0: "shrunkBy w fl 0 = w"
  by (simp add: shrunkBy_def)

lemma shrunkBy_room: "(fl < shrunkBy w fl n) = (n < w - fl)"
  by (auto simp: shrunkBy_def min_def)

lemma shrunkBy_Suc_room: "n < w - fl \<Longrightarrow> shrunkBy w fl (Suc n) = shrunkBy w fl n - 1"
  by (auto simp: shrunkBy_def min_def)

lemma shrunkBy_Suc_floor: "\<not> n < w - fl \<Longrightarrow> shrunkBy w fl (Suc n) = shrunkBy w fl n"
  by (auto simp: shrunkBy_def min_def)

lemma length_afterRounds: "length (afterRounds ord ws k cur) = length ws"
  by (simp add: afterRounds_def)

lemma afterRounds_nth:
  "i < length ws \<Longrightarrow>
   afterRounds ord ws k cur ! i =
     (if i \<in> set ord
      then shrunkBy (ws ! i) (minColumnWidths ! i) (k + (if i \<in> set (take cur ord) then 1 else 0))
      else ws ! i)"
  by (simp add: afterRounds_def)

lemma afterRounds_start: "afterRounds ord ws 0 0 = ws"
  by (rule nth_equalityI) (simp_all add: length_afterRounds afterRounds_nth shrunkBy_0)

lemma afterRounds_wrap: "afterRounds ord ws k (length ord) = afterRounds ord ws (Suc k) 0"
  by (rule nth_equalityI) (simp_all add: length_afterRounds afterRounds_nth)

lemma nth_notin_take:
  assumes "distinct xs" and "n < length xs"
  shows "xs ! n \<notin> set (take n xs)"
proof
  assume "xs ! n \<in> set (take n xs)"
  then obtain j where "j < n" "take n xs ! j = xs ! n"
    using assms(2) by (auto simp: in_set_conv_nth)
  then have "xs ! j = xs ! n" "j < n" by simp_all
  then show False using assms by (simp add: nth_eq_iff_index_eq)
qed

lemma set_take_Suc:
  "n < length xs \<Longrightarrow> set (take (Suc n) xs) = insert (xs ! n) (set (take n xs))"
  by (simp add: take_Suc_conv_app_nth)

text \<open>One turn of the column at position \<open>cur\<close> of the order.\<close>

lemma afterRounds_turn:
  assumes "distinct ord" and "cur < length ord" and "\<forall>i \<in> set ord. i < length ws"
  shows "minColumnWidths ! (ord ! cur) < afterRounds ord ws k cur ! (ord ! cur) \<Longrightarrow>
           (afterRounds ord ws k cur)[ord ! cur := afterRounds ord ws k cur ! (ord ! cur) - 1] =
             afterRounds ord ws k (Suc cur)"
    and "\<not> minColumnWidths ! (ord ! cur) < afterRounds ord ws k cur ! (ord ! cur) \<Longrightarrow>
           afterRounds ord ws k cur = afterRounds ord ws k (Suc cur)"
proof -
  define idx where "idx = ord ! cur"
  have idx: "idx \<in> set ord" "idx < length ws" "idx \<notin> set (take cur ord)"
    using assms nth_notin_take [OF assms(1,2)] by (simp_all add: idx_def)
  have tk: "set (take (Suc cur) ord) = insert idx (set (take cur ord))"
    using set_take_Suc [OF assms(2)] by (simp add: idx_def)
  have at: "afterRounds ord ws k cur ! idx = shrunkBy (ws ! idx) (minColumnWidths ! idx) k"
    using idx by (simp add: afterRounds_nth)
  have other: "afterRounds ord ws k (Suc cur) ! i = afterRounds ord ws k cur ! i"
    if "i < length ws" "i \<noteq> idx" for i
    using that by (simp add: afterRounds_nth tk)
  have new: "afterRounds ord ws k (Suc cur) ! idx =
      shrunkBy (ws ! idx) (minColumnWidths ! idx) (Suc k)"
    using idx by (simp add: afterRounds_nth tk)
  show "(afterRounds ord ws k cur)[ord ! cur := afterRounds ord ws k cur ! (ord ! cur) - 1] =
      afterRounds ord ws k (Suc cur)"
    if room: "minColumnWidths ! (ord ! cur) < afterRounds ord ws k cur ! (ord ! cur)"
  proof (rule nth_equalityI)
    show "length ((afterRounds ord ws k cur)[ord ! cur := afterRounds ord ws k cur ! (ord ! cur) - 1])
        = length (afterRounds ord ws k (Suc cur))"
      by (simp add: length_afterRounds)
  next
    fix i
    assume "i < length ((afterRounds ord ws k cur)[ord ! cur := afterRounds ord ws k cur ! (ord ! cur) - 1])"
    then have i: "i < length ws" by (simp add: length_afterRounds)
    have "k < ws ! idx - minColumnWidths ! idx"
      using room at by (simp add: idx_def [symmetric] shrunkBy_room)
    then have "afterRounds ord ws k (Suc cur) ! idx = afterRounds ord ws k cur ! idx - 1"
      using new at by (simp add: shrunkBy_Suc_room)
    then show "(afterRounds ord ws k cur)[ord ! cur := afterRounds ord ws k cur ! (ord ! cur) - 1] ! i
        = afterRounds ord ws k (Suc cur) ! i"
      using i other [of i] by (cases "i = idx") (simp_all add: idx_def [symmetric] length_afterRounds)
  qed
  show "afterRounds ord ws k cur = afterRounds ord ws k (Suc cur)"
    if floor: "\<not> minColumnWidths ! (ord ! cur) < afterRounds ord ws k cur ! (ord ! cur)"
  proof (rule nth_equalityI)
    show "length (afterRounds ord ws k cur) = length (afterRounds ord ws k (Suc cur))"
      by (simp add: length_afterRounds)
  next
    fix i
    assume "i < length (afterRounds ord ws k cur)"
    then have i: "i < length ws" by (simp add: length_afterRounds)
    have "\<not> k < ws ! idx - minColumnWidths ! idx"
      using floor at by (simp add: idx_def [symmetric] shrunkBy_room)
    then have "afterRounds ord ws k (Suc cur) ! idx = afterRounds ord ws k cur ! idx"
      using new at by (simp add: shrunkBy_Suc_floor)
    then show "afterRounds ord ws k cur ! i = afterRounds ord ws k (Suc cur) ! i"
      using i other [of i] by (cases "i = idx") simp_all
  qed
qed

text \<open>A pass from position \<open>cur\<close> on: it ends at a later position, and short of the end
  of the order only because the budget is met.\<close>

lemma shrinkPass_rounds:
  assumes "distinct ord" and "\<forall>i \<in> set ord. i < length ws" and "cur \<le> length ord"
  shows "\<exists>cur'. cur \<le> cur' \<and> cur' \<le> length ord \<and>
           fst (shrinkPass mw (drop cur ord) (afterRounds ord ws k cur, r)) =
             afterRounds ord ws k cur' \<and>
           (cur' = length ord \<or>
            int (totalWidth (afterRounds ord ws k cur')) \<le> mw)"
  using assms(3)
proof (induction "length ord - cur" arbitrary: cur r)
  case 0
  then have "drop cur ord = []" "cur = length ord" by simp_all
  then show ?case by (intro exI [of _ "length ord"]) simp
next
  case (Suc n)
  then have cur: "cur < length ord" by simp
  define A where "A = afterRounds ord ws k cur"
  define idx where "idx = ord ! cur"
  have dr: "drop cur ord = idx # drop (Suc cur) ord"
    using cur by (simp add: idx_def Cons_nth_drop_Suc)
  have ih: "\<exists>cur'. Suc cur \<le> cur' \<and> cur' \<le> length ord \<and>
           fst (shrinkPass mw (drop (Suc cur) ord) (afterRounds ord ws k (Suc cur), r')) =
             afterRounds ord ws k cur' \<and>
           (cur' = length ord \<or> int (totalWidth (afterRounds ord ws k cur')) \<le> mw)" for r'
    using Suc(1) [of "Suc cur" r'] Suc(2) cur by simp
  show ?case
  proof (cases "minColumnWidths ! idx < A ! idx")
    case False
    have eq: "A = afterRounds ord ws k (Suc cur)"
      unfolding A_def using afterRounds_turn(2) [OF assms(1) cur assms(2), of k] False
      by (simp add: A_def idx_def)
    have "shrinkPass mw (drop cur ord) (A, r) = shrinkPass mw (drop (Suc cur) ord) (A, r)"
      unfolding dr using False by (rule shrinkPass_skip)
    then show ?thesis
      using ih [of r] unfolding A_def [symmetric] eq [symmetric]
      by (metis Suc_leD)
  next
    case True
    have eq: "A[idx := A ! idx - 1] = afterRounds ord ws k (Suc cur)"
      using afterRounds_turn(1) [OF assms(1) cur assms(2), of k] True
      by (simp add: A_def idx_def)
    show ?thesis
    proof (cases "int (totalWidth (A[idx := A ! idx - 1])) \<le> mw")
      case brk: True
      have "shrinkPass mw (drop cur ord) (A, r) = (A[idx := A ! idx - 1], True)"
        unfolding dr using True brk by (rule shrinkPass_break)
      then have "fst (shrinkPass mw (drop cur ord) (A, r)) = afterRounds ord ws k (Suc cur)"
        using eq by simp
      moreover have "int (totalWidth (afterRounds ord ws k (Suc cur))) \<le> mw"
        using brk eq by simp
      ultimately show ?thesis
        unfolding A_def [symmetric] using cur
        by (intro exI [of _ "Suc cur"]) simp
    next
      case go: False
      have "shrinkPass mw (drop cur ord) (A, r) =
          shrinkPass mw (drop (Suc cur) ord) (A[idx := A ! idx - 1], True)"
        unfolding dr using True go by (rule shrinkPass_go)
      then show ?thesis
        using ih [of True] unfolding A_def [symmetric] eq [symmetric]
        by (metis Suc_leD)
    qed
  qed
qed

lemma distinct_shrinkOrder: "distinct shrinkOrder"
  by (simp add: shrinkOrder_def)

lemma shrinkOrder_bound: "length ws = 7 \<Longrightarrow> \<forall>i \<in> set shrinkOrder. i < length ws"
  by (simp add: shrinkOrder_def)

text \<open>The loop, started after \<open>k\<close> complete rounds, ends after some rounds and a part.\<close>

lemma shrinkLoop_rounds:
  assumes "length ws = 7"
  shows "\<exists>k' cur. cur \<le> length shrinkOrder \<and>
           shrinkLoop mw (afterRounds shrinkOrder ws k 0) =
             Some (afterRounds shrinkOrder ws k' cur)"
proof (induction "totalWidth (afterRounds shrinkOrder ws k 0)" arbitrary: k rule: less_induct)
  case less
  define W where "W = afterRounds shrinkOrder ws k 0"
  have lenW: "length W = 7" using assms by (simp add: W_def length_afterRounds)
  show ?case
  proof (cases "int (totalWidth W) > mw")
    case False
    then have "shrinkLoop mw W = Some (afterRounds shrinkOrder ws k 0)"
      unfolding W_def by (rule shrinkLoop_done)
    then show ?thesis unfolding W_def by (intro exI [of _ k] exI [of _ 0]) simp
  next
    case True
    define p where "p = shrinkPass mw shrinkOrder (W, False)"
    obtain cur' where c: "cur' \<le> length shrinkOrder" "fst p = afterRounds shrinkOrder ws k cur'"
        "cur' = length shrinkOrder \<or> int (totalWidth (afterRounds shrinkOrder ws k cur')) \<le> mw"
      using shrinkPass_rounds [OF distinct_shrinkOrder shrinkOrder_bound [OF assms], of 0 mw k False]
      by (auto simp: p_def W_def)
    have sum: "snd p \<longleftrightarrow> totalWidth (fst p) < totalWidth W"
      using shrinkPass_sum [OF shrinkOrder_bound [OF lenW], of mw False] by (simp add: p_def)
    have pp: "p = (fst p, snd p)" by simp
    show ?thesis
    proof (cases "snd p")
      case False
      then have "shrinkPass mw shrinkOrder (W, False) = (fst p, False)"
        using pp by (simp add: p_def)
      from shrinkLoop_stuck [OF True this] show ?thesis
        unfolding W_def c(2) using c(1) by blast
    next
      case snd_p: True
      then have "shrinkPass mw shrinkOrder (W, False) = (fst p, True)"
        using pp by (simp add: p_def)
      from shrinkLoop_again [OF True this]
      have eq: "shrinkLoop mw W = shrinkLoop mw (fst p)" .
      show ?thesis
      proof (cases "cur' = length shrinkOrder")
        case True
        then have w: "fst p = afterRounds shrinkOrder ws (Suc k) 0"
          using c(2) by (simp add: afterRounds_wrap)
        have "totalWidth (afterRounds shrinkOrder ws (Suc k) 0)
            < totalWidth (afterRounds shrinkOrder ws k 0)"
          using sum snd_p w by (simp add: W_def)
        from less [OF this] show ?thesis
          using eq w by (simp add: W_def)
      next
        case False
        then have "\<not> int (totalWidth (fst p)) > mw" using c(2,3) by simp
        then have "shrinkLoop mw (fst p) = Some (fst p)" by (rule shrinkLoop_done)
        then show ?thesis
          using eq c(1,2) unfolding W_def by auto
      qed
    qed
  qed
qed

lemma shrinkOrder_names:
  "map (\<lambda>i. headers ! i) shrinkOrder =
     map js [''Account'', ''Value'', ''Metric'', ''Reset/Note'', ''Provider'', ''Plan'']"
  by (simp add: shrinkOrder_def headers_def)

text \<open>
  Claim C1, amended. The shrink order is Account, Value, Metric, Reset/Note, Provider,
  Plan; the Bar column is never shrunk. When a non-zero target width is supplied and the
  required width exceeds it, the columns of the order take turns in that order, each turn
  lowering one column by one unit and passing over a column at or below its floor: the
  result is the widths after some number \<open>k\<close> of complete rounds and the first \<open>cur\<close>
  columns of one more round. No column goes below its floor (or below its natural width,
  when that is smaller). The total is checked after each decrement: the loop stops with
  the total exactly at the target, or above it with every column of the order at or below
  its floor. Without a target width, or when the table fits, the widths are unchanged.
\<close>

theorem shrink_round_robin:
  assumes "length ws = 7"
  shows "map (\<lambda>i. headers ! i) shrinkOrder =
           map js [''Account'', ''Value'', ''Metric'', ''Reset/Note'', ''Provider'', ''Plan''] \<and>
         (\<exists>ws' k cur.
            shrinkWidths maxWidth ws = Some ws' \<and>
            cur \<le> length shrinkOrder \<and> ws' = afterRounds shrinkOrder ws k cur \<and>
            ws' ! 5 = ws ! 5 \<and>
            (\<forall>i < 7. ws' ! i \<le> ws ! i \<and> min (ws ! i) (minColumnWidths ! i) \<le> ws' ! i) \<and>
            (\<forall>mw. maxWidth = Some mw \<and> mw \<noteq> 0 \<and> mw < int (totalWidth ws) \<longrightarrow>
               int (totalWidth ws') = mw \<or>
               (mw < int (totalWidth ws') \<and>
                (\<forall>i \<in> set shrinkOrder. ws' ! i \<le> minColumnWidths ! i))) \<and>
            (\<not> (\<exists>mw. maxWidth = Some mw \<and> mw \<noteq> 0 \<and> mw < int (totalWidth ws)) \<longrightarrow>
               ws' = ws))"
proof (cases "\<exists>mw. maxWidth = Some mw \<and> mw \<noteq> 0 \<and> mw < int (totalWidth ws)")
  case False
  then have "shrinkWidths maxWidth ws = Some ws"
    by (auto simp: shrinkWidths_def split: option.splits)
  moreover have "ws = afterRounds shrinkOrder ws 0 0" by (simp add: afterRounds_start)
  ultimately have "shrinkWidths maxWidth ws = Some ws \<and> 0 \<le> length shrinkOrder \<and>
      ws = afterRounds shrinkOrder ws 0 0 \<and> ws ! 5 = ws ! 5 \<and>
      (\<forall>i < 7. ws ! i \<le> ws ! i \<and> min (ws ! i) (minColumnWidths ! i) \<le> ws ! i)"
    by simp
  then show ?thesis using False shrinkOrder_names by blast
next
  case True
  then obtain mw where mw: "maxWidth = Some mw" "mw \<noteq> 0" "mw < int (totalWidth ws)" by blast
  then have eq: "shrinkWidths maxWidth ws = shrinkLoop mw ws" by (simp add: shrinkWidths_def)
  obtain ws' where r: "shrinkLoop mw ws = Some ws'" "ws' ! 5 = ws ! 5"
      "\<forall>i < 7. ws' ! i \<le> ws ! i \<and> min (ws ! i) (minColumnWidths ! i) \<le> ws' ! i"
      "int (totalWidth ws') \<le> mw \<or> (\<forall>i \<in> set shrinkOrder. ws' ! i \<le> minColumnWidths ! i)"
      "mw \<le> int (totalWidth ws')"
    using shrinkLoop_result [OF assms, of mw] mw(3) by blast
  obtain k cur where s: "cur \<le> length shrinkOrder"
      "shrinkLoop mw ws = Some (afterRounds shrinkOrder ws k cur)"
    using shrinkLoop_rounds [OF assms, of mw 0] by (auto simp: afterRounds_start)
  have shape: "ws' = afterRounds shrinkOrder ws k cur" using r(1) s(2) by simp
  have stop: "int (totalWidth ws') = mw \<or>
      (mw < int (totalWidth ws') \<and> (\<forall>i \<in> set shrinkOrder. ws' ! i \<le> minColumnWidths ! i))"
    using r(4,5) by linarith
  have "shrinkWidths maxWidth ws = Some ws' \<and> cur \<le> length shrinkOrder \<and>
      ws' = afterRounds shrinkOrder ws k cur \<and> ws' ! 5 = ws ! 5 \<and>
      (\<forall>i < 7. ws' ! i \<le> ws ! i \<and> min (ws ! i) (minColumnWidths ! i) \<le> ws' ! i) \<and>
      (\<forall>m. maxWidth = Some m \<and> m \<noteq> 0 \<and> m < int (totalWidth ws) \<longrightarrow>
         int (totalWidth ws') = m \<or>
         (m < int (totalWidth ws') \<and> (\<forall>i \<in> set shrinkOrder. ws' ! i \<le> minColumnWidths ! i)))"
    using eq r(1,2,3) s(1) shape stop mw(1) by simp
  then show ?thesis using True shrinkOrder_names by blast
qed

lemma shrink_example_90:
  "shrinkLoop 90 [8, 18, 8, 8, 14, 8, 10] = Some [8, 16, 8, 8, 12, 8, 8]"
proof -
  have p1: "shrinkPass 90 shrinkOrder ([8, 18, 8, 8, 14, 8, 10], False) =
      ([8, 17, 8, 8, 13, 8, 9], True)"
    by (simp add: shrinkOrder_def minColumnWidths_def totalWidth_def)
  have p2: "shrinkPass 90 shrinkOrder ([8, 17, 8, 8, 13, 8, 9], False) =
      ([8, 16, 8, 8, 12, 8, 8], True)"
    by (simp add: shrinkOrder_def minColumnWidths_def totalWidth_def)
  have "shrinkLoop 90 [8, 18, 8, 8, 14, 8, 10] = shrinkLoop 90 [8, 17, 8, 8, 13, 8, 9]"
    by (rule shrinkLoop_again [OF _ p1]) (simp add: totalWidth_def)
  also have "\<dots> = shrinkLoop 90 [8, 16, 8, 8, 12, 8, 8]"
    by (rule shrinkLoop_again [OF _ p2]) (simp add: totalWidth_def)
  also have "\<dots> = Some [8, 16, 8, 8, 12, 8, 8]"
    by (rule shrinkLoop_done) (simp add: totalWidth_def)
  finally show ?thesis .
qed

text \<open>
  C1 at the widths 8, 18, 8, 8, 14, 8, 10 (96 columns) and the target 90: one complete
  round and the first four columns of the next.
\<close>

theorem shrink_round_robin_witness:
  "length [8, 18, 8, 8, 14, 8, 10 :: nat] = 7 \<and>
   (\<exists>k cur. cur \<le> length shrinkOrder \<and>
      shrinkWidths (Some 90) [8, 18, 8, 8, 14, 8, 10] =
        Some (afterRounds shrinkOrder [8, 18, 8, 8, 14, 8, 10] k cur)) \<and>
   shrinkWidths (Some 90) [8, 18, 8, 8, 14, 8, 10] = Some [8, 16, 8, 8, 12, 8, 8] \<and>
   afterRounds shrinkOrder [8, 18, 8, 8, 14, 8, 10] 1 4 = [8, 16, 8, 8, 12, 8, 8]"
proof -
  have len: "length [8, 18, 8, 8, 14, 8, 10 :: nat] = 7" by simp
  have "\<exists>k cur. cur \<le> length shrinkOrder \<and>
      shrinkWidths (Some 90) [8, 18, 8, 8, 14, 8, 10] =
        Some (afterRounds shrinkOrder [8, 18, 8, 8, 14, 8, 10] k cur)"
    using shrink_round_robin [OF len, of "Some 90"] by blast
  moreover have "shrinkWidths (Some 90) [8, 18, 8, 8, 14, 8, 10] = Some [8, 16, 8, 8, 12, 8, 8]"
    using shrink_example_90 by (simp add: shrinkWidths_def totalWidth_def)
  moreover have "afterRounds shrinkOrder [8, 18, 8, 8, 14, 8, 10] 1 4 = [8, 16, 8, 8, 12, 8, 8]"
    by (simp add: afterRounds_def shrinkOrder_def minColumnWidths_def shrunkBy_def upt_rec)
  ultimately show ?thesis by simp
qed

text \<open>
  C1 as stated fails: with the same widths and the target 95 one column must give one
  unit. The specification's order names Value (column 4), which is above its floor; the
  code shrinks Account (column 1) and leaves Value at 14.
\<close>

theorem shrink_order_counterexample:
  "int (totalWidth [8, 18, 8, 8, 14, 8, 10]) > 95 \<and>
   shrinkWidths (Some 95) [8, 18, 8, 8, 14, 8, 10] = Some [8, 17, 8, 8, 14, 8, 10] \<and>
   spec_first_shrunk [8, 18, 8, 8, 14, 8, 10] = Some 4 \<and>
   headers ! 4 = js ''Value'' \<and> headers ! 1 = js ''Account''"
proof -
  have p: "shrinkPass 95 shrinkOrder ([8, 18, 8, 8, 14, 8, 10], False) =
      ([8, 17, 8, 8, 14, 8, 10], True)"
    by (simp add: shrinkOrder_def minColumnWidths_def totalWidth_def)
  have "shrinkLoop 95 [8, 18, 8, 8, 14, 8, 10] = shrinkLoop 95 [8, 17, 8, 8, 14, 8, 10]"
    by (rule shrinkLoop_again [OF _ p]) (simp add: totalWidth_def)
  also have "\<dots> = Some [8, 17, 8, 8, 14, 8, 10]"
    by (rule shrinkLoop_done) (simp add: totalWidth_def)
  finally have "shrinkWidths (Some 95) [8, 18, 8, 8, 14, 8, 10] = Some [8, 17, 8, 8, 14, 8, 10]"
    by (simp add: shrinkWidths_def totalWidth_def)
  moreover have "spec_first_shrunk [8, 18, 8, 8, 14, 8, 10] = Some 4"
    by (simp add: spec_first_shrunk_def spec_shrinkOrder_def minColumnWidths_def)
  ultimately show ?thesis by (simp add: totalWidth_def headers_def)
qed

subsection \<open>Evaluating the samples\<close>

declare decimal.simps [simp del]

lemma decimal_500: "decimal 500 = js ''500''"
  by (simp add: decimal.simps [of 500] decimal.simps [of 50] decimal.simps [of 5] js_def)

lemma decimal_42: "decimal 42 = js ''42''"
  by (simp add: decimal.simps [of 42] decimal.simps [of 4] js_def)

lemma split2: "split_dot (js ''not.a-jwt'') = [js ''not'', js ''a-jwt'']"
  by (simp add: js_def)

lemma split3: "split_dot (js ''aa.bb.cc'') = [js ''aa'', js ''bb'', js ''cc'']"
  by (simp add: js_def)


subsection \<open>Token claims\<close>

lemma decodeJwtPayload_cases:
  "decodeJwtPayload rt token =
     (if \<not> truthy token \<or> length (split_dot (the token)) \<noteq> 3 then Inr None
      else case decode_segment rt (split_dot (the token) ! 1) of
             Inl e \<Rightarrow> Inr None
           | Inr v \<Rightarrow> Inr (Some v))"
  by (simp add: decodeJwtPayload_def Let_def)

lemma decodeJwtPayload_total: "\<exists>claims. decodeJwtPayload rt token = Inr claims"
  by (simp add: decodeJwtPayload_cases split: sum.splits)

lemma codex_without_claims:
  assumes "truthy (access config)"
    and "decodeJwtPayload rt (access config) = Inr None"
    and "truthy (accountId config)"
    and "codexResponses net (codexRequest rt config (the (accountId config))) = Inr resp"
    and "ok resp"
  shows "\<exists>d. fetchOpenAICodexQuota rt net config = Inr d \<and>
           codex_accountId d = the (accountId config) \<and>
           emailFromToken d = None \<and> planFromToken d = None"
  using assms by (simp add: fetchOpenAICodexQuota_def Let_def js_or_def)

text \<open>
  Claim C7. \<open>decodeJwtPayload\<close> never throws, whatever the token and the runtime. It
  returns \<open>undefined\<close> for an absent or empty token, for a token that does not have
  three dot-separated segments, and for a token whose middle segment, after the base64url
  translation and padding, does not decode to text that \<open>JSON.parse\<close> accepts. With such
  a token the Header-Probe adapter still succeeds when the configuration has an account
  id and the probe answers 2xx; the token then contributes no email and no plan.
\<close>

theorem malformed_token_no_claims:
  "(\<exists>claims. decodeJwtPayload rt token = Inr claims) \<and>
   (\<not> truthy token \<longrightarrow> decodeJwtPayload rt token = Inr None) \<and>
   (truthy token \<and> length (split_dot (the token)) \<noteq> 3 \<longrightarrow>
      decodeJwtPayload rt token = Inr None) \<and>
   (truthy token \<and> length (split_dot (the token)) = 3 \<and>
    (\<exists>e. json_parse rt (base64_utf8 rt (pad4 (base64url_to_base64 (split_dot (the token) ! 1))))
           = Inl e) \<longrightarrow>
      decodeJwtPayload rt token = Inr None) \<and>
   (truthy (access config) \<and> decodeJwtPayload rt (access config) = Inr None \<and>
    truthy (accountId config) \<and>
    codexResponses net (codexRequest rt config (the (accountId config))) = Inr resp \<and>
    ok resp \<longrightarrow>
      (\<exists>d. fetchOpenAICodexQuota rt net config = Inr d \<and>
         codex_accountId d = the (accountId config) \<and>
         emailFromToken d = None \<and> planFromToken d = None))"
proof (intro conjI impI)
  show "\<exists>claims. decodeJwtPayload rt token = Inr claims"
    by (rule decodeJwtPayload_total)
next
  assume "\<not> truthy token"
  then show "decodeJwtPayload rt token = Inr None" by (simp add: decodeJwtPayload_cases)
next
  assume "truthy token \<and> length (split_dot (the token)) \<noteq> 3"
  then show "decodeJwtPayload rt token = Inr None" by (simp add: decodeJwtPayload_cases)
next
  assume a: "truthy token \<and> length (split_dot (the token)) = 3 \<and>
    (\<exists>e. json_parse rt (base64_utf8 rt (pad4 (base64url_to_base64 (split_dot (the token) ! 1))))
           = Inl e)"
  then obtain e where "decode_segment rt (split_dot (the token) ! 1) = Inl e"
    by (auto simp: decode_segment_def Let_def)
  then show "decodeJwtPayload rt token = Inr None"
    using a by (simp add: decodeJwtPayload_cases)
next
  assume "truthy (access config) \<and> decodeJwtPayload rt (access config) = Inr None \<and>
    truthy (accountId config) \<and>
    codexResponses net (codexRequest rt config (the (accountId config))) = Inr resp \<and>
    ok resp"
  then show "\<exists>d. fetchOpenAICodexQuota rt net config = Inr d \<and>
         codex_accountId d = the (accountId config) \<and>
         emailFromToken d = None \<and> planFromToken d = None"
    using codex_without_claims [of config rt net resp] by blast
qed

text \<open>C7 at a two-segment token, at a three-segment token with a bad payload, and at
  no token.\<close>

theorem malformed_token_no_claims_witness:
  "length (split_dot (js ''not.a-jwt'')) = 2 \<and>
   decodeJwtPayload sample_runtime (Some (js ''not.a-jwt'')) = Inr None \<and>
   length (split_dot (js ''aa.bb.cc'')) = 3 \<and>
   json_parse sample_runtime
     (base64_utf8 sample_runtime (pad4 (base64url_to_base64 (split_dot (js ''aa.bb.cc'') ! 1))))
     = Inl SyntaxError \<and>
   decodeJwtPayload sample_runtime (Some (js ''aa.bb.cc'')) = Inr None \<and>
   decodeJwtPayload sample_runtime None = Inr None \<and>
   (\<exists>d. fetchOpenAICodexQuota sample_runtime sample_network sample_config = Inr d \<and>
      codex_accountId d = js ''acct-1'')"
proof -
  have p: "json_parse sample_runtime
     (base64_utf8 sample_runtime (pad4 (base64url_to_base64 (split_dot (js ''aa.bb.cc'') ! 1))))
     = Inl SyntaxError"
    by (simp add: split3 sample_runtime_def) (simp add: js_def base64url_to_base64_def pad4_def)
  have t2: "truthy (Some (js ''not.a-jwt''))" "truthy (Some (js ''aa.bb.cc''))"
    by (simp_all add: js_def)
  have a: "decodeJwtPayload sample_runtime (Some (js ''not.a-jwt'')) = Inr None"
    using malformed_token_no_claims [of sample_runtime "Some (js ''not.a-jwt'')"] t2
    by (simp add: split2)
  have b: "decodeJwtPayload sample_runtime (Some (js ''aa.bb.cc'')) = Inr None"
    using malformed_token_no_claims [of sample_runtime "Some (js ''aa.bb.cc'')"] t2 p
    by (simp add: split3)
  have c: "decodeJwtPayload sample_runtime None = Inr None"
    using malformed_token_no_claims [of sample_runtime None] by simp
  have "ok \<lparr>status = 200, headers_get = (\<lambda>h. None), json_body = Inr (), text_body = []\<rparr>"
    by (simp add: ok_def)
  then have d: "\<exists>d. fetchOpenAICodexQuota sample_runtime sample_network sample_config = Inr d \<and>
      codex_accountId d = js ''acct-1''"
    using malformed_token_no_claims [of sample_runtime "access sample_config" sample_config
        sample_network "\<lparr>status = 200, headers_get = (\<lambda>h. None), json_body = Inr (), text_body = []\<rparr>"]
      a t2
    by (auto simp: sample_config_def sample_network_def js_def)
  show ?thesis using a b c d p by (simp add: split2 split3)
qed

subsection \<open>Rows of the Copilot branch\<close>

text \<open>
  Claim C3, amended. When the Copilot response has no \<open>quota_snapshots\<close> field,
  normalization emits, after the optional sku row, exactly one row with metric
  \<open>quota\<close> and value \<open>No snapshot data\<close> for that provider. The test is for the
  presence of the field, not for its having entries.
\<close>

theorem copilot_no_snapshot_field:
  assumes "quota_snapshots d = None"
  shows "copilotRows rt prov config d =
           (if truthy (access_type_sku d)
            then [mkRow prov (or_else (Some (login d)) (getAccountHint prov config))
                    (or_else (js_or (copilot_plan d) (sku d)) (js ''unknown''))
                    (js ''sku'') (the (access_type_sku d)) (js ''-'')]
            else [])
           @ [mkRow prov (or_else (Some (login d)) (getAccountHint prov config))
                (or_else (js_or (copilot_plan d) (sku d)) (js ''unknown''))
                (js ''quota'') (js ''No snapshot data'') (js ''-'')] \<and>
         entryRows rt \<lparr>res_provider = prov, res_config = config, res_kind = Copilot d\<rparr> =
           copilotRows rt prov config d \<and>
         length (filter (\<lambda>r. metric r = js ''quota'') (copilotRows rt prov config d)) = 1"
  using assms by (simp add: copilotRows_def entryRows_def Let_def mkRow_def js_def)

text \<open>C3 at a response without the field and without an sku.\<close>

theorem copilot_no_snapshot_field_witness:
  "quota_snapshots copilot_no_snapshots = None \<and>
   entryRows sample_runtime
     \<lparr>res_provider = js ''github-copilot'', res_config = sample_config,
      res_kind = Copilot copilot_no_snapshots\<rparr> =
     [mkRow (js ''github-copilot'') (js ''octocat'') (js ''individual'') (js ''quota'')
        (js ''No snapshot data'') (js ''-'')]"
  using copilot_no_snapshot_field [of copilot_no_snapshots sample_runtime "js ''github-copilot''"
      sample_config]
  by (simp add: copilot_no_snapshots_def or_else_def js_or_def) (simp add: js_def)

text \<open>
  C3 as stated fails for an empty \<open>quota_snapshots\<close> mapping: the object is truthy, the
  loop over its entries pushes nothing, and the provider gets no row at all. Alone in the
  results, it leaves the table with the general \<open>No data\<close> placeholder.
\<close>

theorem copilot_empty_snapshots_counterexample:
  "quota_snapshots copilot_empty_snapshots = Some [] \<and>
   entryRows sample_runtime
     \<lparr>res_provider = js ''github-copilot'', res_config = sample_config,
      res_kind = Copilot copilot_empty_snapshots\<rparr> = [] \<and>
   widgetRows sample_runtime
     [\<lparr>res_provider = js ''github-copilot'', res_config = sample_config,
       res_kind = Copilot copilot_empty_snapshots\<rparr>] = [placeholderRow] \<and>
   cell_value placeholderRow = js ''No data'' \<and>
   js ''No data'' \<noteq> js ''No snapshot data''"
  by (simp add: copilot_empty_snapshots_def entryRows_def copilotRows_def widgetRows_def
      collectRows_def placeholderRow_def mkRow_def Let_def js_def)

subsection \<open>The placeholder row\<close>

text \<open>
  Claim C4, amended. When at least one provider is configured, the handler sets the
  widget, and its rows are never empty: when aggregation produces no row, exactly one
  placeholder row is added before rendering, and otherwise none. The placeholder has
  \<open>-\<close> as provider, account, plan and reset, \<open>quota\<close> as metric and \<open>No data\<close> as
  value, and the table rendered from the rows has a data line. When no provider is
  configured the handler only warns: no row is added and no table is rendered.
\<close>

theorem empty_rows_placeholder:
  assumes "providers \<noteq> []"
  shows "quotaHandler rt net (Inr providers) =
           [Notify (js ''Fetching quotas...'') (js ''info''),
            SetWidget (widgetRows rt (map (providerResult rt net) providers))] \<and>
         (collectRows rt (map (providerResult rt net) providers) = [] \<longrightarrow>
            widgetRows rt (map (providerResult rt net) providers) = [placeholderRow]) \<and>
         (collectRows rt (map (providerResult rt net) providers) \<noteq> [] \<longrightarrow>
            widgetRows rt (map (providerResult rt net) providers) =
              collectRows rt (map (providerResult rt net) providers)) \<and>
         widgetRows rt (map (providerResult rt net) providers) \<noteq> [] \<and>
         placeholderRow =
           \<lparr>provider = js ''-'', account = js ''-'', plan = js ''-'', metric = js ''quota'',
            cell_value = js ''No data'', reset = js ''-'', progressRemaining = None\<rparr> \<and>
         (\<exists>lines. renderQuotaTable t th (widgetRows rt (map (providerResult rt net) providers))
                    maxWidth = Some (Inr lines) \<and>
            6 \<le> length lines) \<and>
         quotaHandler rt net (Inr []) =
           [Notify (js ''No logged-in providers found'') (js ''warning'')]"
proof -
  define results where "results = map (providerResult rt net) providers"
  have h: "quotaHandler rt net (Inr providers) =
      [Notify (js ''Fetching quotas...'') (js ''info''), SetWidget (widgetRows rt results)]"
    using assms by (simp add: quotaHandler_def results_def)
  have h0: "quotaHandler rt net (Inr []) =
      [Notify (js ''No logged-in providers found'') (js ''warning'')]"
    by (simp add: quotaHandler_def)
  have rows: "widgetRows rt results \<noteq> []"
    by (simp add: widgetRows_def Let_def)
  obtain cells widths where r: "length cells = length (widgetRows rt results)"
      "renderQuotaTable t th (widgetRows rt results) maxWidth =
         Some (Inr (tableLines t th maxWidth widths (zip (widgetRows rt results) cells)))"
    using renderQuotaTable_returns [of "widgetRows rt results" maxWidth t th] by blast
  have "length (zip (widgetRows rt results) cells) \<noteq> 0"
    using rows r(1) by simp
  then obtain x xs where z: "zip (widgetRows rt results) cells = x # xs"
    by (cases "zip (widgetRows rt results) cells") auto
  obtain a ca where x: "x = (a, ca)" by (cases x)
  have "6 \<le> length (tableLines t th maxWidth widths (zip (widgetRows rt results) cells))"
    by (simp add: tableLines_def z x)
  then have "quotaHandler rt net (Inr providers) =
      [Notify (js ''Fetching quotas...'') (js ''info''), SetWidget (widgetRows rt results)] \<and>
    (collectRows rt results = [] \<longrightarrow> widgetRows rt results = [placeholderRow]) \<and>
    (collectRows rt results \<noteq> [] \<longrightarrow> widgetRows rt results = collectRows rt results) \<and>
    widgetRows rt results \<noteq> [] \<and>
    placeholderRow =
      \<lparr>provider = js ''-'', account = js ''-'', plan = js ''-'', metric = js ''quota'',
       cell_value = js ''No data'', reset = js ''-'', progressRemaining = None\<rparr> \<and>
    (\<exists>lines. renderQuotaTable t th (widgetRows rt results) maxWidth = Some (Inr lines) \<and>
       6 \<le> length lines)"
    using h rows r(2) by (simp add: widgetRows_def Let_def placeholderRow_def mkRow_def)
  then show ?thesis using h0 unfolding results_def by blast
qed

text \<open>
  C4 at an \<open>auth.json\<close> with the one provider github-copilot, whose answer has an empty
  snapshot mapping: no row is collected, and the widget gets the placeholder.
\<close>

theorem empty_rows_placeholder_witness:
  "[(js ''github-copilot'', Some sample_config)] \<noteq> [] \<and>
   collectRows sample_runtime
     (map (providerResult sample_runtime sample_network)
        [(js ''github-copilot'', Some sample_config)]) = [] \<and>
   quotaHandler sample_runtime sample_network (Inr [(js ''github-copilot'', Some sample_config)]) =
     [Notify (js ''Fetching quotas...'') (js ''info''), SetWidget [placeholderRow]]"
proof -
  have ne: "[(js ''github-copilot'', Some sample_config)] \<noteq> []" by simp
  have f: "fetchCopilotQuota sample_network sample_config = Inr copilot_empty_snapshots"
    by (simp add: fetchCopilotQuota_def sample_network_def sample_config_def ok_def js_def)
  have p: "providerResult sample_runtime sample_network (js ''github-copilot'', Some sample_config) =
      \<lparr>res_provider = js ''github-copilot'', res_config = sample_config,
       res_kind = Copilot copilot_empty_snapshots\<rparr>"
    by (simp add: providerResult_def adapterResult_def f)
  have c: "collectRows sample_runtime
     (map (providerResult sample_runtime sample_network)
        [(js ''github-copilot'', Some sample_config)]) = []"
    by (simp add: p collectRows_def entryRows_def copilotRows_def copilot_empty_snapshots_def
        Let_def)
  show ?thesis
    using empty_rows_placeholder [OF ne, of sample_runtime sample_network] c by simp
qed

text \<open>
  C4 as stated fails twice. The placeholder does not read \<open>No data\<close> in its provider,
  account, plan and metric fields; \<open>No data\<close> is its value. And an invocation with no
  configured provider produces no row, adds no placeholder and sets no widget.
\<close>

theorem placeholder_fields_counterexample:
  "provider placeholderRow = js ''-'' \<and> provider placeholderRow \<noteq> js ''No data'' \<and>
   account placeholderRow = js ''-'' \<and> account placeholderRow \<noteq> js ''No data'' \<and>
   plan placeholderRow = js ''-'' \<and> plan placeholderRow \<noteq> js ''No data'' \<and>
   metric placeholderRow = js ''quota'' \<and> metric placeholderRow \<noteq> js ''No data'' \<and>
   cell_value placeholderRow = js ''No data'' \<and>
   quotaHandler sample_runtime sample_network (Inr []) =
     [Notify (js ''No logged-in providers found'') (js ''warning'')]"
  by (simp add: placeholderRow_def mkRow_def quotaHandler_def js_def)

subsection \<open>The soft error of the Tiered-Model adapter\<close>

lemma truthy_message: "truthy (Some (js ''fetchAvailableModels failed ('' @ s))"
  by (simp add: js_def)

text \<open>
  Claim C6. When the access token is present, the first call answers 2xx with a body, a
  project id is resolved, and the second call answers with a status outside 2xx, then
  \<open>fetchGoogleQuota\<close> does not throw: it returns the data of the first call with no models
  and the message \<open>fetchAvailableModels failed (<status>)\<close>. Normalization gives the
  prompt-credits row when credits are reported, carrying account and plan, then exactly
  one row of metric \<open>model_quotas\<close> with that message, and no other row.
\<close>

theorem models_failure_is_soft:
  assumes "truthy (access config)"
    and "loadCodeAssist net (loadRequest config ideType) = Inr loadResponse"
    and "ok loadResponse"
    and "json_body loadResponse = Inr ld"
    and "truthy (resolvedProjectId config ld)"
    and "fetchAvailableModels net
           (modelsRequest config ideType (the (resolvedProjectId config ld))) = Inr modelsResponse"
    and "\<not> ok modelsResponse"
  shows "fetchGoogleQuota net config ideType =
           Inr \<lparr>loadData = ld, modelsData = None,
                modelsError = Some (js ''fetchAvailableModels failed (''
                  @ decimal (status modelsResponse) @ js '')'')\<rparr> \<and>
         googleRows rt prov config
           \<lparr>loadData = ld, modelsData = None,
            modelsError = Some (js ''fetchAvailableModels failed (''
              @ decimal (status modelsResponse) @ js '')'')\<rparr> =
           (case availablePromptCredits ld of
              Some credits \<Rightarrow>
                [mkRow prov (or_else (email config) (getAccountHint prov config)) (googlePlan ld)
                   (js ''prompt_credits'') (numberToString rt credits) (js ''-'')]
            | None \<Rightarrow> [])
           @ [mkRow prov (or_else (email config) (getAccountHint prov config)) (googlePlan ld)
                (js ''model_quotas'')
                (js ''fetchAvailableModels failed ('' @ decimal (status modelsResponse) @ js '')'')
                (js ''-'')] \<and>
         length (filter (\<lambda>r. metric r = js ''model_quotas'')
                   (googleRows rt prov config
                      \<lparr>loadData = ld, modelsData = None,
                       modelsError = Some (js ''fetchAvailableModels failed (''
                         @ decimal (status modelsResponse) @ js '')'')\<rparr>)) = 1 \<and>
         (\<forall>d. entryRows rt \<lparr>res_provider = prov, res_config = config, res_kind = GeminiCli d\<rparr>
                = googleRows rt prov config d \<and>
              entryRows rt \<lparr>res_provider = prov, res_config = config, res_kind = Antigravity d\<rparr>
                = googleRows rt prov config d)"
proof -
  have f: "fetchGoogleQuota net config ideType =
           Inr \<lparr>loadData = ld, modelsData = None,
                modelsError = Some (js ''fetchAvailableModels failed (''
                  @ decimal (status modelsResponse) @ js '')'')\<rparr>"
    using assms by (simp add: fetchGoogleQuota_def)
  have g: "googleRows rt prov config
           \<lparr>loadData = ld, modelsData = None,
            modelsError = Some (js ''fetchAvailableModels failed (''
              @ decimal (status modelsResponse) @ js '')'')\<rparr> =
           (case availablePromptCredits ld of
              Some credits \<Rightarrow>
                [mkRow prov (or_else (email config) (getAccountHint prov config)) (googlePlan ld)
                   (js ''prompt_credits'') (numberToString rt credits) (js ''-'')]
            | None \<Rightarrow> [])
           @ [mkRow prov (or_else (email config) (getAccountHint prov config)) (googlePlan ld)
                (js ''model_quotas'')
                (js ''fetchAvailableModels failed ('' @ decimal (status modelsResponse) @ js '')'')
                (js ''-'')]"
    using truthy_message [of "decimal (status modelsResponse) @ js '')''"]
    by (simp add: googleRows_def Let_def collectGoogleModelRows_def split: option.splits)
  have n: "length (filter (\<lambda>r. metric r = js ''model_quotas'')
                   (googleRows rt prov config
                      \<lparr>loadData = ld, modelsData = None,
                       modelsError = Some (js ''fetchAvailableModels failed (''
                         @ decimal (status modelsResponse) @ js '')'')\<rparr>)) = 1"
    unfolding g by (simp add: mkRow_def js_def split: option.splits)
  have e: "\<forall>d. entryRows rt \<lparr>res_provider = prov, res_config = config, res_kind = GeminiCli d\<rparr>
                = googleRows rt prov config d \<and>
              entryRows rt \<lparr>res_provider = prov, res_config = config, res_kind = Antigravity d\<rparr>
                = googleRows rt prov config d"
    by (simp add: entryRows_def Let_def)
  from f g n e show ?thesis by blast
qed

text \<open>C6 at the sample network, whose second call answers 500.\<close>

theorem models_failure_is_soft_witness:
  "ok \<lparr>status = 200, headers_get = (\<lambda>h. None), json_body = Inr sample_load,
       text_body = []\<rparr> \<and>
   fetchGoogleQuota sample_network sample_config IDE_UNSPECIFIED =
     Inr \<lparr>loadData = sample_load, modelsData = None,
          modelsError = Some (js ''fetchAvailableModels failed (500)'')\<rparr> \<and>
   entryRows sample_runtime
     \<lparr>res_provider = js ''google-gemini-cli'', res_config = sample_config,
      res_kind = GeminiCli \<lparr>loadData = sample_load, modelsData = None,
        modelsError = Some (js ''fetchAvailableModels failed (500)'')\<rparr>\<rparr> =
     [mkRow (js ''google-gemini-cli'') (js ''dev@example.com'') (js ''Free'')
        (js ''prompt_credits'') (js ''42'') (js ''-''),
      mkRow (js ''google-gemini-cli'') (js ''dev@example.com'') (js ''Free'')
        (js ''model_quotas'') (js ''fetchAvailableModels failed (500)'') (js ''-'')]"
proof -
  define r1 :: "GoogleLoadCodeAssistResponse response" where
    "r1 = \<lparr>status = 200, headers_get = (\<lambda>h. None), json_body = Inr sample_load, text_body = []\<rparr>"
  define r2 :: "FetchAvailableModelsResponse response" where
    "r2 = \<lparr>status = 500, headers_get = (\<lambda>h. None), json_body = Inl SyntaxError, text_body = []\<rparr>"
  have h1: "truthy (access sample_config)" by (simp add: sample_config_def js_def)
  have h2: "loadCodeAssist sample_network (loadRequest sample_config IDE_UNSPECIFIED) = Inr r1"
    by (simp add: sample_network_def r1_def)
  have h3: "ok r1" by (simp add: ok_def r1_def)
  have h4: "json_body r1 = Inr sample_load" by (simp add: r1_def)
  have p: "resolvedProjectId sample_config sample_load = Some (js ''p1'')"
    by (simp add: resolvedProjectId_def sample_config_def js_or_def js_def)
  have h5: "truthy (resolvedProjectId sample_config sample_load)" by (simp add: p js_def)
  have h6: "fetchAvailableModels sample_network
      (modelsRequest sample_config IDE_UNSPECIFIED
         (the (resolvedProjectId sample_config sample_load))) = Inr r2"
    by (simp add: sample_network_def r2_def)
  have h7: "\<not> ok r2" by (simp add: ok_def r2_def)
  have msg: "js ''fetchAvailableModels failed ('' @ decimal (status r2) @ js '')'' =
      js ''fetchAvailableModels failed (500)''"
    by (simp add: r2_def decimal_500) (simp add: js_def)
  have acct: "or_else (email sample_config) (getAccountHint (js ''google-gemini-cli'') sample_config)
      = js ''dev@example.com''"
    by (simp add: or_else_def sample_config_def js_def)
  have pl: "googlePlan sample_load = js ''Free''"
    by (simp add: googlePlan_def sample_load_def or_else_def js_or_def js_def)
  have cr: "availablePromptCredits sample_load = Some 42" by (simp add: sample_load_def)
  have num: "numberToString sample_runtime 42 = js ''42''"
    by (simp add: sample_runtime_def decimal_42)
  show ?thesis
    using models_failure_is_soft [OF h1 h2 h3 h4 h5 h6 h7, of sample_runtime
        "js ''google-gemini-cli''"] h3
    by (simp add: msg acct pl cr num r1_def)
qed

end
